theory Spec2Isabelle
  imports Complex_Main "HOL-Library.AList"
begin

section \<open>The worker of Cura WASM (src/worker.ts)\<close>

text \<open>
  The worker is a singleton with four module-level variables (\<open>engine\<close>,
  \<open>extruderCount\<close>, \<open>progressObserver\<close>, \<open>metadataObserver\<close>) and two
  hooks on \<open>globalThis\<close> that the engine calls by name. All of it is one record,
  \<open>worker_state\<close>, passed through every operation. An operation returns the value it
  resolves to, or the fault it throws, together with the state it leaves behind: a
  thrown fault does not undo the assignments made before it.

  JavaScript numbers are modelled as exact reals: \<open>0.3\<close> is \<open>3/10\<close> and
  \<open>Math.round\<close> is rounding half up. Byte buffers and JSON texts are strings.
\<close>

subsection \<open>Strings: paths, decimal indices, split and join\<close>

definition digit :: "nat \<Rightarrow> char" where
  "digit d = ''0123456789'' ! d"

text \<open>The decimal text of an array index, as a template literal \<open>${i}\<close> renders it.\<close>

function string_of_nat :: "nat \<Rightarrow> string" where
  "string_of_nat n =
     (if n < 10 then [digit n] else string_of_nat (n div 10) @ [digit (n mod 10)])"
  by pat_completeness auto
termination
  by (relation "measure id") auto

declare string_of_nat.simps [simp del]

text \<open>\<open>command.split(' ')\<close>: every single space separates, so the result is never empty
  and consecutive spaces give empty tokens.\<close>

fun split_space :: "string \<Rightarrow> string list" where
  "split_space [] = [[]]"
| "split_space (c # cs) =
     (if c = CHR '' '' then [] # split_space cs
      else (case split_space cs of [] \<Rightarrow> [[c]] | t # ts \<Rightarrow> (c # t) # ts))"

text \<open>\<open>args.join(' ')\<close>.\<close>

fun join_space :: "string list \<Rightarrow> string" where
  "join_space [] = []"
| "join_space [x] = x"
| "join_space (x # y # ys) = x @ '' '' @ join_space (y # ys)"

subsection \<open>The engine's virtual filesystem\<close>

text \<open>
  Modelled from the spec: the in-memory filesystem \<open>engine.FS\<close> that the engine module
  (\<open>CuraEngine.js\<close>, not under src/) exposes. The worker uses five of its calls:
  \<open>mkdir\<close>, \<open>writeFile\<close>, \<open>readFile\<close>, \<open>unlink\<close> and \<open>rmdir\<close>. A filesystem is
  the list of its directories and the association list of its files, keyed by absolute
  path; the working directory is the root, so a relative name such as \<open>Model.stl\<close>
  lives directly under \<open>/\<close>. Each call fails with an error number where the path is
  missing, already there, or of the wrong kind, and a directory is removed only when
  nothing lives in it.
\<close>

datatype errno = ENOENT | EEXIST | ENOTEMPTY | EISDIR | ENOTDIR | EBUSY

record fs =
  dirs :: "string list"
  files :: "(string \<times> string) list"

definition resolve :: "string \<Rightarrow> string" where
  "resolve p = (case p of [] \<Rightarrow> ''/'' | c # _ \<Rightarrow> if c = CHR ''/'' then p else CHR ''/'' # p)"

definition dirname :: "string \<Rightarrow> string" where
  "dirname p =
     (let d = rev (tl (dropWhile (\<lambda>c. c \<noteq> CHR ''/'') (rev p)))
      in if d = [] then ''/'' else d)"

definition is_dir :: "fs \<Rightarrow> string \<Rightarrow> bool" where
  "is_dir f p = (p \<in> set (dirs f))"

definition is_file :: "fs \<Rightarrow> string \<Rightarrow> bool" where
  "is_file f p = (p \<in> set (map fst (files f)))"

definition mkdir :: "string \<Rightarrow> fs \<Rightarrow> errno + fs" where
  "mkdir path f =
     (let p = resolve path in
      if is_file f (dirname p) then Inl ENOTDIR
      else if \<not> is_dir f (dirname p) then Inl ENOENT
      else if is_dir f p \<or> is_file f p then Inl EEXIST
      else Inr (f\<lparr>dirs := dirs f @ [p]\<rparr>))"

definition writeFile :: "string \<Rightarrow> string \<Rightarrow> fs \<Rightarrow> errno + fs" where
  "writeFile path data f =
     (let p = resolve path in
      if is_dir f p then Inl EISDIR
      else if is_file f (dirname p) then Inl ENOTDIR
      else if \<not> is_dir f (dirname p) then Inl ENOENT
      else Inr (f\<lparr>files := AList.update p data (files f)\<rparr>))"

definition readFile :: "string \<Rightarrow> fs \<Rightarrow> errno + string" where
  "readFile path f =
     (let p = resolve path in
      if is_dir f p then Inl EISDIR
      else (case map_of (files f) p of None \<Rightarrow> Inl ENOENT | Some data \<Rightarrow> Inr data))"

definition unlink :: "string \<Rightarrow> fs \<Rightarrow> errno + fs" where
  "unlink path f =
     (let p = resolve path in
      if is_dir f p then Inl EISDIR
      else if \<not> is_file f p then Inl ENOENT
      else Inr (f\<lparr>files := AList.delete p (files f)\<rparr>))"

definition rmdir :: "string \<Rightarrow> fs \<Rightarrow> errno + fs" where
  "rmdir path f =
     (let p = resolve path in
      if is_file f p then Inl ENOTDIR
      else if \<not> is_dir f p then Inl ENOENT
      else if p = ''/'' then Inl EBUSY
      else if list_ex (\<lambda>q. q \<noteq> p \<and> dirname q = p) (dirs f @ map fst (files f))
        then Inl ENOTEMPTY
      else Inr (f\<lparr>dirs := removeAll p (dirs f)\<rparr>))"

text \<open>A filesystem is well formed when the root exists, every other entry lives in a
  directory that exists, and no path is both a file and a directory.\<close>

definition wf_fs :: "fs \<Rightarrow> bool" where
  "wf_fs f =
     (''/'' \<in> set (dirs f)
      \<and> list_all (\<lambda>d. d = ''/'' \<or> dirname d \<in> set (dirs f)) (dirs f)
      \<and> list_all (\<lambda>p. p \<notin> set (dirs f) \<and> dirname p \<in> set (dirs f)) (map fst (files f)))"

subsection \<open>The data of the worker (src/types.ts and src/worker.ts)\<close>

record override =
  scope :: "string option"
  key :: string
  override_value :: string

record Metadata =
  flavor :: string
  printTime :: real
  material1Usage :: real
  material2Usage :: real
  nozzleSize :: real
  filamentUsage :: real
  minX :: real
  minY :: real
  minZ :: real
  maxX :: real
  maxY :: real
  maxZ :: real

text \<open>A printer definition as \<open>addDefinitions\<close> uses it: the JSON text of the printer
  and of each extruder.\<close>

record CombinedDefinition =
  printer :: string
  extruders :: "string list"

text \<open>What the engine does while \<open>callMain\<close> blocks: the calls it makes to the two
  hooks, in order.\<close>

datatype engine_call = ProgressCall real | MetadataCall Metadata

text \<open>The engine module. \<open>callMain\<close> is opaque: from the argument vector and the
  filesystem it gives the hook calls it makes, the filesystem it leaves, and whether it
  returned (\<open>True\<close>) or threw.\<close>

record EmscriptenModule2 =
  FS :: fs
  callMain :: "string list \<Rightarrow> fs \<Rightarrow> engine_call list \<times> fs \<times> bool"

record config =
  noInitialRun :: bool
  print_silenced :: bool
  printErr_silenced :: bool

datatype observer = Observer (has_next: bool)

text \<open>The closure stored under \<open>cura-wasm-progress-callback\<close>: the two biases it
  captured and its own variable \<open>previousSlicerProgress\<close>.\<close>

record progress_closure =
  captured_converterBias :: real
  captured_slicerBias :: real
  previousSlicerProgress :: real

text \<open>Calls that leave the worker, in the order they are made.\<close>

datatype external_call =
  Convert string string
  | Generate "override list option" "bool option"
  | CallMain "string list"

record worker_state =
  engine :: "EmscriptenModule2 option"
  extruderCount :: "nat option"
  progressObserver :: "observer option"
  metadataObserver :: "observer option"
  progress_callback :: "progress_closure option"
  metadata_callback :: "unit option"
  progress_emitted :: "real list"
  metadata_emitted :: "Metadata list"
  console :: "string list"
  calls :: "external_call list"

text \<open>Thrown faults: \<open>new Error(message)\<close>, the filesystem's errors, a \<open>TypeError\<close>
  on a null engine, and whatever the engine throws when it aborts.\<close>

datatype thrown = Error string | ErrnoError errno | TypeError | Abort

text \<open>What \<open>run\<close> resolves to: the transferred G-code, or the error value the
  converter returned.\<close>

datatype run_result = Transfer string | ReturnedError string

type_synonym 'a action = "worker_state \<Rightarrow> (thrown + 'a) \<times> worker_state"

definition bind_action :: "'a action \<Rightarrow> ('a \<Rightarrow> 'b action) \<Rightarrow> 'b action" where
  "bind_action m k s = (case m s of (Inl e, s') \<Rightarrow> (Inl e, s') | (Inr a, s') \<Rightarrow> k a s')"

text \<open>A \<open>for\<close> loop whose body may throw: the first fault ends it.\<close>

fun for_each :: "'a list \<Rightarrow> ('a \<Rightarrow> unit action) \<Rightarrow> unit action" where
  "for_each [] body s = (Inr (), s)"
| "for_each (x # xs) body s =
     (case body x s of (Inl e, s') \<Rightarrow> (Inl e, s') | (Inr _, s') \<Rightarrow> for_each xs body s')"

text \<open>A call \<open>engine.FS.f(...)\<close> that changes the filesystem.\<close>

definition FS_call :: "(fs \<Rightarrow> errno + fs) \<Rightarrow> unit action" where
  "FS_call f s =
     (case engine s of
        None \<Rightarrow> (Inl TypeError, s)
      | Some e \<Rightarrow>
          (case f (FS e) of
             Inl err \<Rightarrow> (Inl (ErrnoError err), s)
           | Inr f' \<Rightarrow> (Inr (), s\<lparr>engine := Some (e\<lparr>FS := f'\<rparr>)\<rparr>)))"

definition FS_readFile :: "string \<Rightarrow> string action" where
  "FS_readFile path s =
     (case engine s of
        None \<Rightarrow> (Inl TypeError, s)
      | Some e \<Rightarrow>
          (case readFile path (FS e) of
             Inl err \<Rightarrow> (Inl (ErrnoError err), s)
           | Inr data \<Rightarrow> (Inr data, s)))"

subsection \<open>initialize, observeProgress, observeMetadata\<close>

definition initialize :: "(config \<Rightarrow> EmscriptenModule2) \<Rightarrow> bool \<Rightarrow> unit action" where
  "initialize CuraEngine verbose s =
     (let config = \<lparr>noInitialRun = True, print_silenced = \<not> verbose,
                    printErr_silenced = \<not> verbose\<rparr>
      in (Inr (), s\<lparr>engine := Some (CuraEngine config)\<rparr>))"

definition observeProgress :: "observer \<Rightarrow> worker_state \<Rightarrow> worker_state" where
  "observeProgress ob s = s\<lparr>progressObserver := Some ob\<rparr>"

definition observeMetadata :: "observer \<Rightarrow> worker_state \<Rightarrow> worker_state" where
  "observeMetadata ob s = s\<lparr>metadataObserver := Some ob\<rparr>"

subsection \<open>addDefinitions and removeDefinitions\<close>

text \<open>The table of primary definitions (\<open>./definitions/index\<close>, not under src/) is a
  parameter: its entries as name and JSON text, in the order \<open>for ... in\<close> visits
  them.\<close>

definition addDefinitions ::
  "(string \<times> string) list \<Rightarrow> CombinedDefinition \<Rightarrow> unit action" where
  "addDefinitions definitions definition s =
     (case engine s of
        None \<Rightarrow> (Inl (Error ''Attempting to add definitions before initialization!''), s)
      | Some _ \<Rightarrow>
          bind_action (FS_call (mkdir ''/definitions'')) (\<lambda>_.
          bind_action (for_each definitions (\<lambda>(name, json).
            FS_call (writeFile (''/definitions/'' @ name @ ''.def.json'') json))) (\<lambda>_.
          bind_action (FS_call (writeFile ''/definitions/printer.def.json''
            (printer definition))) (\<lambda>_.
          bind_action (for_each (enumerate 0 (extruders definition)) (\<lambda>(i, extruder).
            FS_call (writeFile (''/definitions/extruder-'' @ string_of_nat i @ ''.def.json'')
              extruder))) (\<lambda>_ s'.
          (Inr (), s'\<lparr>extruderCount := Some (length (extruders definition))\<rparr>))))) s)"

definition removeDefinitions :: "(string \<times> string) list \<Rightarrow> unit action" where
  "removeDefinitions definitions s =
     (case (engine s, extruderCount s) of
        (Some _, Some count) \<Rightarrow>
          bind_action (for_each definitions (\<lambda>(name, json).
            FS_call (unlink (''/definitions/'' @ name @ ''.def.json'')))) (\<lambda>_.
          bind_action (FS_call (unlink ''/definitions/printer.def.json'')) (\<lambda>_.
          bind_action (for_each [0..<count] (\<lambda>i.
            FS_call (unlink (''/definitions/extruder-'' @ string_of_nat i @ ''.def.json'')))) (\<lambda>_.
          FS_call (rmdir ''/definitions'')))) s
      | _ \<Rightarrow> (Inl (Error ''Attempting to remove definitions before initialization!''), s))"

subsection \<open>run\<close>

definition converterBias :: "string \<Rightarrow> real" where
  "converterBias extension = (if extension = ''stl'' then 0 else 3 / 10)"

definition slicerBias :: "string \<Rightarrow> real" where
  "slicerBias extension = 1 - converterBias extension"

definition Math_round :: "real \<Rightarrow> real" where
  "Math_round x = of_int \<lfloor>x + 1 / 2\<rfloor>"

text \<open>Line 171: \<open>Math.round(100 * slicerProgress) / 100\<close>.\<close>

definition two_decimals :: "real \<Rightarrow> real" where
  "two_decimals raw = Math_round (100 * raw) / 100"

text \<open>\<open>if (observer != null && observer.next != null) observer.next(v)\<close>, with the
  values handed to \<open>next\<close> collected in the state.\<close>

definition subscribed :: "observer option \<Rightarrow> bool" where
  "subscribed ob = (case ob of None \<Rightarrow> False | Some b \<Rightarrow> has_next b)"

definition emit_progress :: "real \<Rightarrow> worker_state \<Rightarrow> worker_state" where
  "emit_progress v s =
     (if subscribed (progressObserver s) then s\<lparr>progress_emitted := progress_emitted s @ [v]\<rparr>
      else s)"

definition emit_metadata :: "Metadata \<Rightarrow> worker_state \<Rightarrow> worker_state" where
  "emit_metadata m s =
     (if subscribed (metadataObserver s) then s\<lparr>metadata_emitted := metadata_emitted s @ [m]\<rparr>
      else s)"

text \<open>The progress handler of the file converter (the arrow function given to
  \<open>convert\<close>).\<close>

definition converter_progress :: "real \<Rightarrow> real \<Rightarrow> worker_state \<Rightarrow> worker_state" where
  "converter_progress bias converterProgress s = emit_progress (converterProgress * bias) s"

text \<open>The body of the hook \<open>cura-wasm-progress-callback\<close>, run on the closure that is
  registered. The assignment to \<open>previousSlicerProgress\<close> is outside the test of the
  observer.\<close>

definition cura_wasm_progress_callback :: "real \<Rightarrow> worker_state \<Rightarrow> worker_state" where
  "cura_wasm_progress_callback raw s =
     (case progress_callback s of
        None \<Rightarrow> s
      | Some c \<Rightarrow>
          (let slicerProgress = two_decimals raw in
           if slicerProgress \<noteq> previousSlicerProgress c then
             (emit_progress (slicerProgress * captured_slicerBias c + captured_converterBias c) s)
               \<lparr>progress_callback := Some (c\<lparr>previousSlicerProgress := slicerProgress\<rparr>)\<rparr>
           else s))"

definition cura_wasm_metadata_callback :: "Metadata \<Rightarrow> worker_state \<Rightarrow> worker_state" where
  "cura_wasm_metadata_callback m s =
     (case metadata_callback s of None \<Rightarrow> s | Some _ \<Rightarrow> emit_metadata m s)"

definition invoke :: "worker_state \<Rightarrow> engine_call \<Rightarrow> worker_state" where
  "invoke s c =
     (case c of
        ProgressCall raw \<Rightarrow> cura_wasm_progress_callback raw s
      | MetadataCall m \<Rightarrow> cura_wasm_metadata_callback m s)"

text \<open>\<open>engine.callMain(args)\<close>: blocking; the hook calls happen inside it.\<close>

definition engine_callMain :: "string list \<Rightarrow> unit action" where
  "engine_callMain args s =
     (case engine s of
        None \<Rightarrow> (Inl TypeError, s)
      | Some e \<Rightarrow>
          (case callMain e args (FS e) of
             (hook_calls, f', returned) \<Rightarrow>
               (let s1 = foldl invoke (s\<lparr>calls := calls s @ [CallMain args]\<rparr>) hook_calls;
                    s2 = s1\<lparr>engine := Some (e\<lparr>FS := f'\<rparr>)\<rparr>
                in (if returned then Inr () else Inl Abort, s2))))"

text \<open>The two assignments to \<open>globalThis\<close>, with \<open>previousSlicerProgress = 0\<close>.\<close>

definition register_callbacks :: "real \<Rightarrow> real \<Rightarrow> worker_state \<Rightarrow> worker_state" where
  "register_callbacks cBias sBias s =
     s\<lparr>progress_callback :=
         Some \<lparr>captured_converterBias = cBias, captured_slicerBias = sBias,
               previousSlicerProgress = 0\<rparr>,
       metadata_callback := Some ()\<rparr>"

text \<open>Line 224: the argument vector. The synthesizer \<open>generate\<close> (\<open>./arguments\<close>, not
  under src/) is a parameter, and so is the converter \<open>convert\<close> (\<open>./file\<close>): from the
  file and its extension it gives the fractions it reports and then the STL bytes
  (\<open>Inr\<close>) or an error value (\<open>Inl\<close>).\<close>

definition make_args ::
  "(override list option \<Rightarrow> bool option \<Rightarrow> string list) \<Rightarrow> string option \<Rightarrow>
   override list option \<Rightarrow> bool option \<Rightarrow> string list action" where
  "make_args generate command overrides verbose s =
     (case command of
        None \<Rightarrow> (Inr (generate overrides verbose),
                  s\<lparr>calls := calls s @ [Generate overrides verbose]\<rparr>)
      | Some c \<Rightarrow> (Inr (split_space c), s))"

definition log_args :: "bool option \<Rightarrow> string list \<Rightarrow> unit action" where
  "log_args verbose args s =
     (Inr (), if verbose = Some True
              then s\<lparr>console := console s @ [''Calling Cura Engine with '' @ join_space args]\<rparr>
              else s)"

definition run ::
  "(string \<Rightarrow> string \<Rightarrow> real list \<times> (string + string)) \<Rightarrow>
   (override list option \<Rightarrow> bool option \<Rightarrow> string list) \<Rightarrow>
   string option \<Rightarrow> override list option \<Rightarrow> bool option \<Rightarrow> string \<Rightarrow> string \<Rightarrow>
   run_result action" where
  "run convert generate command overrides verbose file extension s =
     (case engine s of
        None \<Rightarrow> (Inl (Error ''Attempting to run Cura Engine before initialization!''), s)
      | Some _ \<Rightarrow>
          (case convert file extension of
             (reports, stl) \<Rightarrow>
               (let s1 = foldl (\<lambda>t p. converter_progress (converterBias extension) p t)
                           (s\<lparr>calls := calls s @ [Convert file extension]\<rparr>) reports
                in case stl of
                     Inl err \<Rightarrow> (Inr (ReturnedError err), s1)
                   | Inr stl_bytes \<Rightarrow>
                       bind_action (FS_call (writeFile ''Model.stl'' stl_bytes)) (\<lambda>_.
                       bind_action (\<lambda>t. (Inr (), register_callbacks (converterBias extension)
                                                   (slicerBias extension) t)) (\<lambda>_.
                       bind_action (make_args generate command overrides verbose) (\<lambda>args.
                       bind_action (log_args verbose args) (\<lambda>_.
                       bind_action (engine_callMain args) (\<lambda>_.
                       bind_action (\<lambda>t. (Inr (), t\<lparr>progress_callback := None\<rparr>)) (\<lambda>_.
                       bind_action (FS_readFile ''Model.gcode'') (\<lambda>gcode.
                       bind_action (FS_call (unlink ''Model.stl'')) (\<lambda>_.
                       bind_action (FS_call (unlink ''Model.gcode'')) (\<lambda>_ t.
                       (Inr (Transfer gcode), t)))))))))) s1)))"

subsection \<open>The initial state and an example engine\<close>

text \<open>The module-level variables start as \<open>null\<close>, and nothing is registered or
  emitted yet.\<close>

definition initial_state :: worker_state where
  "initial_state =
     \<lparr>engine = None, extruderCount = None, progressObserver = None, metadataObserver = None,
      progress_callback = None, metadata_callback = None, progress_emitted = [],
      metadata_emitted = [], console = [], calls = []\<rparr>"

text \<open>A small engine for concrete runs: it makes the given hook calls, writes
  \<open>/Model.gcode\<close> and returns or throws as told. The example converter passes STL
  bytes through, reports two fractions for \<open>obj\<close> and fails for anything else.\<close>

definition example_metadata :: Metadata where
  "example_metadata =
     \<lparr>flavor = ''UltiGCode'', printTime = 9061, material1Usage = 11172, material2Usage = 0,
      nozzleSize = 4 / 10, filamentUsage = 11172, minX = 78628 / 1000, minY = 95565 / 1000,
      minZ = 3 / 10, maxX = 142112 / 1000, maxY = 127435 / 1000, maxZ = 48\<rparr>"

definition example_engine :: "engine_call list \<Rightarrow> bool \<Rightarrow> EmscriptenModule2" where
  "example_engine hook_calls returned =
     \<lparr>FS = \<lparr>dirs = [''/''], files = []\<rparr>,
      callMain = (\<lambda>args f.
        (hook_calls, f\<lparr>files := AList.update ''/Model.gcode'' ''G28'' (files f)\<rparr>, returned))\<rparr>"

definition example_state :: "engine_call list \<Rightarrow> bool \<Rightarrow> worker_state" where
  "example_state hook_calls returned =
     observeProgress (Observer True)
       (snd (initialize (\<lambda>_. example_engine hook_calls returned) False initial_state))"

definition example_convert :: "string \<Rightarrow> string \<Rightarrow> real list \<times> (string + string)" where
  "example_convert file extension =
     (if extension = ''stl'' then ([], Inr file)
      else if extension = ''obj'' then ([1 / 2, 1], Inr file)
      else ([1 / 4], Inl ''unsupported''))"

text \<open>An example synthesizer: the arguments of the launch command used in the
  repository's tests, whatever the overrides.\<close>

definition example_generate :: "override list option \<Rightarrow> bool option \<Rightarrow> string list" where
  "example_generate overrides verbose =
     [''slice'', ''-j'', ''definitions/printer.def.json'', ''-l'', ''Model.stl'',
      ''-o'', ''Model.gcode'']"

subsection \<open>Notions used to state the properties of \<open>run\<close>\<close>

text \<open>The raw fractions and the metadata records among the hook calls of an engine
  run.\<close>

fun progress_values :: "engine_call list \<Rightarrow> real list" where
  "progress_values [] = []"
| "progress_values (ProgressCall x # cs) = x # progress_values cs"
| "progress_values (MetadataCall m # cs) = progress_values cs"

fun metadata_values :: "engine_call list \<Rightarrow> Metadata list" where
  "metadata_values [] = []"
| "metadata_values (ProgressCall x # cs) = metadata_values cs"
| "metadata_values (MetadataCall m # cs) = m # metadata_values cs"

text \<open>The state of \<open>run\<close> when it calls \<open>callMain\<close> (model file written to
  \<open>f1\<close>, hooks registered, arguments built and logged), the state when
  \<open>callMain\<close> comes back, and the rest of \<open>run\<close> after that.\<close>

definition before_engine ::
  "worker_state \<Rightarrow> EmscriptenModule2 \<Rightarrow> string \<Rightarrow> string \<Rightarrow> real list \<Rightarrow>
   string option \<Rightarrow> override list option \<Rightarrow> bool option \<Rightarrow> string list \<Rightarrow> fs \<Rightarrow> worker_state" where
  "before_engine s e buffer extension reports command overrides verbose args f1 =
     (let s1 = foldl (\<lambda>t p. converter_progress (converterBias extension) p t)
                 (s\<lparr>calls := calls s @ [Convert buffer extension]\<rparr>) reports;
          s2 = s1\<lparr>engine := Some (e\<lparr>FS := f1\<rparr>)\<rparr>;
          s3 = register_callbacks (converterBias extension) (slicerBias extension) s2;
          s4 = (case command of None \<Rightarrow> s3\<lparr>calls := calls s3 @ [Generate overrides verbose]\<rparr>
                | Some _ \<Rightarrow> s3)
      in if verbose = Some True
         then s4\<lparr>console := console s4 @ [''Calling Cura Engine with '' @ join_space args]\<rparr>
         else s4)"

definition after_engine :: "worker_state \<Rightarrow> EmscriptenModule2 \<Rightarrow> string list \<Rightarrow>
   engine_call list \<Rightarrow> fs \<Rightarrow> worker_state" where
  "after_engine s5 e args cs f2 =
     (foldl invoke (s5\<lparr>calls := calls s5 @ [CallMain args]\<rparr>) cs)\<lparr>engine := Some (e\<lparr>FS := f2\<rparr>)\<rparr>"

definition run_tail :: "run_result action" where
  "run_tail =
     bind_action (\<lambda>t. (Inr (), t\<lparr>progress_callback := None\<rparr>)) (\<lambda>_.
     bind_action (FS_readFile ''Model.gcode'') (\<lambda>gcode.
     bind_action (FS_call (unlink ''Model.stl'')) (\<lambda>_.
     bind_action (FS_call (unlink ''Model.gcode'')) (\<lambda>_ t.
       (Inr (Transfer gcode), t)))))"


subsection \<open>Notions used to state the properties of staging\<close>

text \<open>The files \<open>addDefinitions\<close> writes, with their contents, and the paths
  \<open>removeDefinitions\<close> unlinks for a given extruder count, each in the order of the
  source: the primary definitions, the printer, the extruders.\<close>

definition staged_files :: "(string \<times> string) list \<Rightarrow> CombinedDefinition \<Rightarrow> (string \<times> string) list" where
  "staged_files definitions definition =
     map (\<lambda>(name, json). (''/definitions/'' @ name @ ''.def.json'', json)) definitions
     @ [(''/definitions/printer.def.json'', printer definition)]
     @ map (\<lambda>(i, extruder). (''/definitions/extruder-'' @ string_of_nat i @ ''.def.json'', extruder))
         (enumerate 0 (extruders definition))"

definition staged_paths :: "(string \<times> string) list \<Rightarrow> nat \<Rightarrow> string list" where
  "staged_paths definitions count =
     map (\<lambda>(name, json). ''/definitions/'' @ name @ ''.def.json'') definitions
     @ [''/definitions/printer.def.json'']
     @ map (\<lambda>i. ''/definitions/extruder-'' @ string_of_nat i @ ''.def.json'') [0..<count]"

text \<open>Every staged path is \<open>/definitions/<base>.def.json\<close> for one of these base
  names.\<close>

definition def_path :: "string \<Rightarrow> string" where
  "def_path base = ''/definitions/'' @ base @ ''.def.json''"

definition staged_names :: "(string \<times> string) list \<Rightarrow> nat \<Rightarrow> string list" where
  "staged_names definitions count =
     map fst definitions @ [''printer''] @ map (\<lambda>i. ''extruder-'' @ string_of_nat i) [0..<count]"

text \<open>Reading a decimal text back, to see that different indices give different
  texts.\<close>

definition nat_of_string :: "string \<Rightarrow> nat" where
  "nat_of_string cs = foldl (\<lambda>n c. 10 * n + (of_char c - 48)) 0 cs"


section \<open>Properties\<close>

subsection \<open>Evaluation rules\<close>

lemmas ex_defs = example_state_def example_engine_def example_convert_def initial_state_def
  example_generate_def
  observeProgress_def initialize_def

lemmas run_defs = run_def bind_action_def FS_call_def FS_readFile_def writeFile_def readFile_def
  unlink_def resolve_def dirname_def is_dir_def is_file_def converter_progress_def emit_progress_def
  subscribed_def register_callbacks_def make_args_def log_args_def engine_callMain_def
  invoke_def cura_wasm_progress_callback_def cura_wasm_metadata_callback_def emit_metadata_def
  two_decimals_def Math_round_def converterBias_def slicerBias_def Let_def


subsection \<open>The phases of \<open>run\<close>\<close>

lemma converter_progress_foldl:
  "foldl (\<lambda>t p. converter_progress b p t) s reports =
     s\<lparr>progress_emitted := progress_emitted s @
        (if subscribed (progressObserver s) then map (\<lambda>p. p * b) reports else [])\<rparr>"
  by (induction reports arbitrary: s) (simp_all add: converter_progress_def emit_progress_def)

lemma map_remdups_adj_Cons:
  "map f (remdups_adj (x # ys)) = f x # map f (tl (remdups_adj (x # ys)))"
  by (metis remdups_adj_Cons_alt list.simps(9))

lemma invoke_foldl:
  "progress_callback s = Some c \<Longrightarrow> metadata_callback s = Some () \<Longrightarrow>
   foldl invoke s cs =
     s\<lparr>progress_emitted := progress_emitted s @
          (if subscribed (progressObserver s)
           then map (\<lambda>r. r * captured_slicerBias c + captured_converterBias c)
                  (tl (remdups_adj (previousSlicerProgress c # map two_decimals (progress_values cs))))
           else []),
       metadata_emitted := metadata_emitted s @
          (if subscribed (metadataObserver s) then metadata_values cs else []),
       progress_callback := Some (c\<lparr>previousSlicerProgress :=
          last (previousSlicerProgress c # map two_decimals (progress_values cs))\<rparr>)\<rparr>"
proof (induction cs arbitrary: s c)
  case Nil
  then show ?case by simp
next
  case (Cons a cs)
  define s' where "s' = invoke s a"
  have step: "foldl invoke s (a # cs) = foldl invoke s' cs"
    by (simp add: s'_def)
  show ?case
  proof (cases a)
    case (ProgressCall x)
    show ?thesis
    proof (cases "two_decimals x = previousSlicerProgress c")
      case True
      have "s' = s"
        using Cons.prems True ProgressCall
        by (simp add: s'_def invoke_def cura_wasm_progress_callback_def Let_def)
      then show ?thesis
        using Cons.IH [OF Cons.prems] True ProgressCall step by simp
    next
      case False
      define c' where "c' = c\<lparr>previousSlicerProgress := two_decimals x\<rparr>"
      have eq: "s' = (emit_progress (two_decimals x * captured_slicerBias c + captured_converterBias c) s)
               \<lparr>progress_callback := Some c'\<rparr>"
        using Cons.prems False ProgressCall
        by (simp add: s'_def c'_def invoke_def cura_wasm_progress_callback_def Let_def)
      have p: "progress_callback s' = Some c'" and m: "metadata_callback s' = Some ()"
        using Cons.prems by (simp_all add: eq emit_progress_def)
      have ih: "foldl invoke s' cs = s'
         \<lparr>progress_emitted := progress_emitted s' @
          (if subscribed (progressObserver s')
           then map (\<lambda>r. r * captured_slicerBias c' + captured_converterBias c')
                  (tl (remdups_adj (previousSlicerProgress c' # map two_decimals (progress_values cs))))
           else []),
       metadata_emitted := metadata_emitted s' @
          (if subscribed (metadataObserver s') then metadata_values cs else []),
       progress_callback := Some (c'\<lparr>previousSlicerProgress :=
          last (previousSlicerProgress c' # map two_decimals (progress_values cs))\<rparr>)\<rparr>"
        by (rule Cons.IH [OF p m])
      show ?thesis
        unfolding step ih
        using False ProgressCall
        by (simp add: eq c'_def emit_progress_def map_remdups_adj_Cons)
    qed
  next
    case (MetadataCall m)
    have eq: "s' = emit_metadata m s"
      using Cons.prems MetadataCall
      by (simp add: s'_def invoke_def cura_wasm_metadata_callback_def)
    have p: "progress_callback s' = Some c" and mc: "metadata_callback s' = Some ()"
      using Cons.prems by (simp_all add: eq emit_metadata_def)
    show ?thesis
      unfolding step Cons.IH [OF p mc]
      using MetadataCall
      by (simp add: eq emit_metadata_def)
  qed
qed




lemma run_to_engine:
  assumes e: "engine s = Some e"
    and c: "convert buffer extension = (reports, Inr stl)"
    and w: "writeFile ''Model.stl'' stl (FS e) = Inr f1"
    and a: "args = (case command of None \<Rightarrow> generate overrides verbose | Some c \<Rightarrow> split_space c)"
    and m: "callMain e args f1 = (cs, f2, returned)"
  shows "run convert generate command overrides verbose buffer extension s =
    (let sE = after_engine
          (before_engine s e buffer extension reports command overrides verbose args f1) e args cs f2
     in if returned then run_tail sE else (Inl Abort, sE))"
proof -
  define s1 where "s1 = foldl (\<lambda>t p. converter_progress (converterBias extension) p t)
                 (s\<lparr>calls := calls s @ [Convert buffer extension]\<rparr>) reports"
  define s2 where "s2 = s1\<lparr>engine := Some (e\<lparr>FS := f1\<rparr>)\<rparr>"
  define s3 where "s3 = register_callbacks (converterBias extension) (slicerBias extension) s2"
  define s4 where "s4 = (case command of None \<Rightarrow> s3\<lparr>calls := calls s3 @ [Generate overrides verbose]\<rparr>
                | Some _ \<Rightarrow> s3)"
  define s5 where "s5 = (if verbose = Some True
         then s4\<lparr>console := console s4 @ [''Calling Cura Engine with '' @ join_space args]\<rparr>
         else s4)"
  have s5: "before_engine s e buffer extension reports command overrides verbose args f1 = s5"
    unfolding before_engine_def s5_def s4_def s3_def s2_def s1_def Let_def by (rule refl)
  have e1: "engine s1 = Some e"
    using e by (simp add: s1_def converter_progress_foldl)
  have w1: "FS_call (writeFile ''Model.stl'' stl) s1 = (Inr (), s2)"
    using e1 w by (simp add: FS_call_def s2_def)
  have g: "make_args generate command overrides verbose s3 = (Inr args, s4)"
    using a by (simp add: make_args_def s4_def split: option.splits)
  have l: "log_args verbose args s4 = (Inr (), s5)"
    by (simp add: log_args_def s5_def)
  have e5: "engine s5 = Some (e\<lparr>FS := f1\<rparr>)"
    by (simp add: s5_def s4_def s3_def s2_def register_callbacks_def split: option.splits)
  have en: "engine_callMain args s5 =
     (if returned then Inr () else Inl Abort, after_engine s5 e args cs f2)"
    using m e5 by (simp add: engine_callMain_def after_engine_def)
  have "run convert generate command overrides verbose buffer extension s =
      bind_action (FS_call (writeFile ''Model.stl'' stl)) (\<lambda>_.
        bind_action (\<lambda>t. (Inr (), register_callbacks (converterBias extension)
                                                   (slicerBias extension) t)) (\<lambda>_.
        bind_action (make_args generate command overrides verbose) (\<lambda>args.
        bind_action (log_args verbose args) (\<lambda>_.
        bind_action (engine_callMain args) (\<lambda>_. run_tail))))) s1"
    using e c by (simp add: run_def s1_def run_tail_def)
  also have "\<dots> = bind_action (engine_callMain args) (\<lambda>_. run_tail) s5"
    by (simp add: bind_action_def w1 g l s3_def [symmetric])
  also have "\<dots> = (if returned then run_tail (after_engine s5 e args cs f2)
       else (Inl Abort, after_engine s5 e args cs f2))"
    by (simp add: bind_action_def en)
  finally show ?thesis
    by (simp add: s5 Let_def)
qed

lemma before_engine_fields:
  "engine (before_engine s e buffer ext reports command overrides verbose args f1) = Some (e\<lparr>FS := f1\<rparr>)"
  "progress_callback (before_engine s e buffer ext reports command overrides verbose args f1) =
     Some \<lparr>captured_converterBias = converterBias ext, captured_slicerBias = slicerBias ext,
           previousSlicerProgress = 0\<rparr>"
  "metadata_callback (before_engine s e buffer ext reports command overrides verbose args f1) = Some ()"
  "progress_emitted (before_engine s e buffer ext reports command overrides verbose args f1) =
     progress_emitted s @
       (if subscribed (progressObserver s) then map (\<lambda>p. p * converterBias ext) reports else [])"
  "calls (before_engine s e buffer ext reports command overrides verbose args f1) =
     calls s @ Convert buffer ext #
       (case command of None \<Rightarrow> [Generate overrides verbose] | Some _ \<Rightarrow> [])"
  "progressObserver (before_engine s e buffer ext reports command overrides verbose args f1) =
     progressObserver s"
  by (simp_all add: before_engine_def Let_def converter_progress_foldl register_callbacks_def
      split: option.splits)

lemma after_engine_fields:
  assumes "progress_callback t = Some c" and "metadata_callback t = Some ()"
  shows "progress_emitted (after_engine t e args cs f2) =
     progress_emitted t @
       (if subscribed (progressObserver t)
        then map (\<lambda>r. r * captured_slicerBias c + captured_converterBias c)
               (tl (remdups_adj (previousSlicerProgress c # map two_decimals (progress_values cs))))
        else [])"
    and "progress_callback (after_engine t e args cs f2) =
     Some (c\<lparr>previousSlicerProgress :=
        last (previousSlicerProgress c # map two_decimals (progress_values cs))\<rparr>)"
    and "metadata_callback (after_engine t e args cs f2) = Some ()"
    and "calls (after_engine t e args cs f2) = calls t @ [CallMain args]"
    and "engine (after_engine t e args cs f2) = Some (e\<lparr>FS := f2\<rparr>)"
proof -
  have "foldl invoke (t\<lparr>calls := calls t @ [CallMain args]\<rparr>) cs =
     (t\<lparr>calls := calls t @ [CallMain args]\<rparr>)
     \<lparr>progress_emitted := progress_emitted t @
          (if subscribed (progressObserver t)
           then map (\<lambda>r. r * captured_slicerBias c + captured_converterBias c)
                  (tl (remdups_adj (previousSlicerProgress c # map two_decimals (progress_values cs))))
           else []),
       metadata_emitted := metadata_emitted t @
          (if subscribed (metadataObserver t) then metadata_values cs else []),
       progress_callback := Some (c\<lparr>previousSlicerProgress :=
          last (previousSlicerProgress c # map two_decimals (progress_values cs))\<rparr>)\<rparr>"
    using invoke_foldl [of "t\<lparr>calls := calls t @ [CallMain args]\<rparr>" c cs] assms by simp
  then show "progress_emitted (after_engine t e args cs f2) =
     progress_emitted t @
       (if subscribed (progressObserver t)
        then map (\<lambda>r. r * captured_slicerBias c + captured_converterBias c)
               (tl (remdups_adj (previousSlicerProgress c # map two_decimals (progress_values cs))))
        else [])"
    and "progress_callback (after_engine t e args cs f2) =
     Some (c\<lparr>previousSlicerProgress :=
        last (previousSlicerProgress c # map two_decimals (progress_values cs))\<rparr>)"
    and "metadata_callback (after_engine t e args cs f2) = Some ()"
    and "calls (after_engine t e args cs f2) = calls t @ [CallMain args]"
    and "engine (after_engine t e args cs f2) = Some (e\<lparr>FS := f2\<rparr>)"
    using assms by (simp_all add: after_engine_def)
qed

lemma run_tail_fields:
  "progress_callback (snd (run_tail t)) = None"
  "metadata_callback (snd (run_tail t)) = metadata_callback t"
  "progress_emitted (snd (run_tail t)) = progress_emitted t"
  "calls (snd (run_tail t)) = calls t"
  by (simp_all add: run_tail_def bind_action_def FS_call_def FS_readFile_def
      split: option.splits sum.splits prod.splits)

lemma run_engine_reached:
  assumes e: "engine s = Some e"
    and c: "convert buffer extension = (reports, Inr stl)"
    and w: "writeFile ''Model.stl'' stl (FS e) = Inr f1"
    and a: "args = (case command of None \<Rightarrow> generate overrides verbose | Some c \<Rightarrow> split_space c)"
    and m: "callMain e args f1 = (cs, f2, returned)"
  shows "progress_emitted (snd (run convert generate command overrides verbose buffer extension s)) =
      progress_emitted s @
       (if subscribed (progressObserver s)
        then map (\<lambda>p. p * converterBias extension) reports @
             map (\<lambda>r. r * slicerBias extension + converterBias extension)
               (tl (remdups_adj (0 # map two_decimals (progress_values cs))))
        else [])"
    and "calls (snd (run convert generate command overrides verbose buffer extension s)) =
      calls s @ Convert buffer extension #
       (case command of None \<Rightarrow> [Generate overrides verbose] | Some _ \<Rightarrow> []) @ [CallMain args]"
    and "progress_callback (snd (run convert generate command overrides verbose buffer extension s)) =
      (if returned then None
       else Some \<lparr>captured_converterBias = converterBias extension,
                  captured_slicerBias = slicerBias extension,
                  previousSlicerProgress = last (0 # map two_decimals (progress_values cs))\<rparr>)"
    and "metadata_callback (snd (run convert generate command overrides verbose buffer extension s)) =
      Some ()"
    and "\<not> returned \<Longrightarrow>
      fst (run convert generate command overrides verbose buffer extension s) = Inl Abort"
  using run_to_engine [where convert = convert and generate = generate, OF e c w a m]
    after_engine_fields [OF before_engine_fields(2) before_engine_fields(3)]
  by (simp_all add: Let_def run_tail_fields before_engine_fields)

lemma run_conversion_error:
  assumes "engine s = Some e" and "convert buffer extension = (reports, Inl err)"
  shows "run convert generate command overrides verbose buffer extension s =
     (Inr (ReturnedError err),
      s\<lparr>calls := calls s @ [Convert buffer extension],
        progress_emitted := progress_emitted s @
          (if subscribed (progressObserver s)
           then map (\<lambda>p. p * converterBias extension) reports else [])\<rparr>)"
  using assms by (simp add: run_def converter_progress_foldl)

lemma run_write_error:
  assumes "engine s = Some e" and "convert buffer extension = (reports, Inr stl)"
    and "writeFile ''Model.stl'' stl (FS e) = Inl err"
  shows "run convert generate command overrides verbose buffer extension s =
     (Inl (ErrnoError err),
      s\<lparr>calls := calls s @ [Convert buffer extension],
        progress_emitted := progress_emitted s @
          (if subscribed (progressObserver s)
           then map (\<lambda>p. p * converterBias extension) reports else [])\<rparr>)"
  using assms by (simp add: run_def converter_progress_foldl bind_action_def FS_call_def)

lemma make_args_Some:
  "make_args generate (Some c) overrides verbose = (\<lambda>s. (Inr (split_space c), s))"
  by (rule ext) (simp add: make_args_def)

lemma example_engine_state:
  "engine (example_state hook_calls returned) = Some (example_engine hook_calls returned)"
  by (simp add: ex_defs)

subsection \<open>Rounding and blending\<close>

lemma sorted_map_mono:
  "sorted xs \<Longrightarrow> (\<And>x y. x \<le> y \<Longrightarrow> f x \<le> f y) \<Longrightarrow> sorted (map f xs)"
  by (induction xs) auto

lemma two_decimals_mono: "x \<le> y \<Longrightarrow> two_decimals x \<le> two_decimals y"
  by (simp add: two_decimals_def Math_round_def divide_right_mono floor_mono)

lemma two_decimals_nonneg: "0 \<le> x \<Longrightarrow> 0 \<le> two_decimals x"
  by (simp add: two_decimals_def Math_round_def)

lemma two_decimals_le_1: "x \<le> 1 \<Longrightarrow> two_decimals x \<le> 1"
proof -
  assume "x \<le> 1"
  then have "100 * x + 1 / 2 < 101" by simp
  then have "\<lfloor>100 * x + 1 / 2\<rfloor> < 101" by (simp add: floor_less_iff)
  then have "\<lfloor>100 * x + 1 / 2\<rfloor> \<le> 100" by simp
  then have "real_of_int \<lfloor>100 * x + 1 / 2\<rfloor> \<le> 100" by linarith
  then show ?thesis by (simp add: two_decimals_def Math_round_def)
qed

lemma converterBias_range: "0 \<le> converterBias ext \<and> converterBias ext \<le> 1"
  by (simp add: converterBias_def)

lemma blended_sorted:
  assumes "sorted reports" and "\<forall>p\<in>set reports. 0 \<le> p \<and> p \<le> 1"
    and "sorted raws" and "\<forall>x\<in>set raws. 0 \<le> x \<and> x \<le> 1"
    and b: "0 \<le> b" "b \<le> 1"
  shows "sorted (map (\<lambda>p. p * b) reports @
           map (\<lambda>r. r * (1 - b) + b) (tl (remdups_adj (0 # map two_decimals raws))))"
    and "\<forall>y\<in>set (map (\<lambda>p. p * b) reports @
           map (\<lambda>r. r * (1 - b) + b) (tl (remdups_adj (0 # map two_decimals raws)))).
          0 \<le> y \<and> y \<le> 1"
proof -
  let ?F = "tl (remdups_adj (0 # map two_decimals raws))"
  have s0: "sorted (0 # map two_decimals raws)"
    using assms(3,4) by (auto intro!: sorted_map_mono two_decimals_mono two_decimals_nonneg)
  have sF: "sorted ?F"
    using s0 by (intro sorted_tl sorted_remdups_adj)
  have "set ?F \<subseteq> set (remdups_adj (0 # map two_decimals raws))"
    by (cases "remdups_adj (0 # map two_decimals raws)") auto
  then have sub: "set ?F \<subseteq> insert 0 (two_decimals ` set raws)"
    by simp
  have inF: "\<forall>r\<in>set ?F. 0 \<le> r \<and> r \<le> 1"
  proof
    fix r assume "r \<in> set ?F"
    then have "r = 0 \<or> (\<exists>x\<in>set raws. r = two_decimals x)"
      using sub by auto
    then show "0 \<le> r \<and> r \<le> 1"
      using assms(4) two_decimals_nonneg two_decimals_le_1 by auto
  qed
  have conv: "\<forall>y\<in>set (map (\<lambda>p. p * b) reports). 0 \<le> y \<and> y \<le> b"
    using assms(2) b by (auto intro: mult_left_le_one_le)
  have eng: "\<forall>y\<in>set (map (\<lambda>r. r * (1 - b) + b) ?F). b \<le> y \<and> y \<le> 1"
  proof
    fix y assume "y \<in> set (map (\<lambda>r. r * (1 - b) + b) ?F)"
    then obtain r where r: "r \<in> set ?F" and y: "y = r * (1 - b) + b" by auto
    have r01: "0 \<le> r" "r \<le> 1" using inF r by auto
    have "0 \<le> r * (1 - b)" using r01 b by simp
    moreover have "r * (1 - b) \<le> 1 * (1 - b)"
      using r01 b by (intro mult_right_mono) auto
    ultimately show "b \<le> y \<and> y \<le> 1" using y by simp
  qed
  have sc: "sorted (map (\<lambda>p. p * b) reports)"
    using assms(1) b by (intro sorted_map_mono) (auto intro: mult_right_mono)
  have se: "sorted (map (\<lambda>r. r * (1 - b) + b) ?F)"
    using sF b by (intro sorted_map_mono) (auto intro: mult_right_mono)
  show "sorted (map (\<lambda>p. p * b) reports @ map (\<lambda>r. r * (1 - b) + b) ?F)"
    using sc se conv eng by (fastforce simp: sorted_append)
  show "\<forall>y\<in>set (map (\<lambda>p. p * b) reports @ map (\<lambda>r. r * (1 - b) + b) ?F). 0 \<le> y \<and> y \<le> 1"
    using conv eng b by fastforce
qed

lemma first_forwarded_nonzero:
  "tl (remdups_adj (p # R)) \<noteq> [] \<Longrightarrow> hd (tl (remdups_adj (p # R))) \<noteq> p"
proof -
  assume ne: "tl (remdups_adj (p # R)) \<noteq> []"
  then obtain y F where F: "tl (remdups_adj (p # R)) = y # F"
    by (cases "tl (remdups_adj (p # R))") auto
  have "remdups_adj (p # R) = p # y # F"
    using remdups_adj_Cons_alt [of p R] F by simp
  then have "distinct_adj (p # y # F)"
    using distinct_adj_remdups_adj [of "p # R"] by simp
  then show ?thesis using F by auto
qed

lemma example_run_facts:
  "example_convert ''solid'' ''obj'' = ([1 / 2, 1], Inr ''solid'')"
  "example_convert ''solid'' ''stl'' = ([], Inr ''solid'')"
  "writeFile ''Model.stl'' ''solid'' (FS (example_engine hook_calls returned)) =
     Inr \<lparr>dirs = [''/''], files = [(''/Model.stl'', ''solid'')]\<rparr>"
  "callMain (example_engine hook_calls returned) args
     \<lparr>dirs = [''/''], files = [(''/Model.stl'', ''solid'')]\<rparr> =
   (hook_calls,
    \<lparr>dirs = [''/''], files = [(''/Model.stl'', ''solid''), (''/Model.gcode'', ''G28'')]\<rparr>,
    returned)"
  "subscribed (progressObserver (example_state hook_calls returned))"
  "progress_emitted (example_state hook_calls returned) = []"
  by (simp_all add: ex_defs writeFile_def resolve_def dirname_def is_dir_def is_file_def
      subscribed_def)

lemma registered_example:
  "progress_callback (register_callbacks (3 / 10) (7 / 10) (example_state [] True)) =
     Some \<lparr>captured_converterBias = 3 / 10, captured_slicerBias = 7 / 10,
           previousSlicerProgress = 0\<rparr>"
  by (simp add: register_callbacks_def)

lemma run_tail_harvest:
  assumes "engine t = Some m" and "FS m = f2"
    and "readFile ''Model.gcode'' f2 = Inr gcode"
    and "unlink ''Model.stl'' f2 = Inr f3"
    and "unlink ''Model.gcode'' f3 = Inr f4"
  shows "fst (run_tail t) = Inr (Transfer gcode)"
    and "engine (snd (run_tail t)) = Some (m\<lparr>FS := f4\<rparr>)"
  using assms
  by (simp_all add: run_tail_def bind_action_def FS_call_def FS_readFile_def)

subsection \<open>The guards\<close>

text \<open>C4: a call to \<open>run\<close>, \<open>addDefinitions\<close> or \<open>removeDefinitions\<close> made while
  \<open>engine\<close> is \<open>null\<close> throws its "before initialization" error and leaves the
  whole state as it was: nothing else has been done.\<close>

theorem guards_before_initialize:
  assumes "engine s = None"
  shows "run convert generate command overrides verbose buffer extension s =
           (Inl (Error ''Attempting to run Cura Engine before initialization!''), s)
       \<and> addDefinitions definitions definition s =
           (Inl (Error ''Attempting to add definitions before initialization!''), s)
       \<and> removeDefinitions definitions s =
           (Inl (Error ''Attempting to remove definitions before initialization!''), s)"
  using assms by (simp add: run_def addDefinitions_def removeDefinitions_def)

theorem guards_before_initialize_witness:
  "engine initial_state = None
   \<and> run example_convert (\<lambda>_ _. []) None None None ''solid'' ''stl'' initial_state =
       (Inl (Error ''Attempting to run Cura Engine before initialization!''), initial_state)
   \<and> addDefinitions [(''fdmprinter'', ''{}'')] \<lparr>printer = ''{}'', extruders = [''{}'']\<rparr>
        initial_state =
       (Inl (Error ''Attempting to add definitions before initialization!''), initial_state)
   \<and> removeDefinitions [(''fdmprinter'', ''{}'')] initial_state =
       (Inl (Error ''Attempting to remove definitions before initialization!''), initial_state)"
proof -
  have h: "engine initial_state = None"
    by (simp add: initial_state_def)
  show ?thesis
    using h guards_before_initialize [OF h] by simp
qed

subsection \<open>A conversion error\<close>

text \<open>C3: when the converter returns an error value, \<open>run\<close> resolves to that value
  (it is not thrown), the only external call made is the one to the converter, so
  \<open>callMain\<close> is never invoked, and the engine with its filesystem is untouched: no
  model file has been written. All that changes is the progress the converter
  reported on its way.\<close>

theorem conversion_error_is_returned:
  assumes "engine s = Some e" and "convert buffer extension = (reports, Inl err)"
  shows "fst (run convert generate command overrides verbose buffer extension s) =
           Inr (ReturnedError err)
       \<and> calls (snd (run convert generate command overrides verbose buffer extension s)) =
           calls s @ [Convert buffer extension]
       \<and> engine (snd (run convert generate command overrides verbose buffer extension s)) =
           engine s
       \<and> snd (run convert generate command overrides verbose buffer extension s) =
           s\<lparr>calls := calls s @ [Convert buffer extension],
             progress_emitted := progress_emitted s @
               (if subscribed (progressObserver s)
                then map (\<lambda>p. p * converterBias extension) reports else [])\<rparr>"
  by (simp add: run_conversion_error [where convert = convert, OF assms])

theorem conversion_error_is_returned_witness:
  "engine (example_state [] True) = Some (example_engine [] True)
   \<and> example_convert ''solid'' ''3mf'' = ([1 / 4], Inl ''unsupported'')
   \<and> fst (run example_convert (\<lambda>_ _. []) None None None ''solid'' ''3mf'' (example_state [] True))
       = Inr (ReturnedError ''unsupported'')
   \<and> calls (snd (run example_convert (\<lambda>_ _. []) None None None ''solid'' ''3mf''
        (example_state [] True))) = [Convert ''solid'' ''3mf'']
   \<and> engine (snd (run example_convert (\<lambda>_ _. []) None None None ''solid'' ''3mf''
        (example_state [] True))) = Some (example_engine [] True)
   \<and> progress_emitted (snd (run example_convert (\<lambda>_ _. []) None None None ''solid'' ''3mf''
        (example_state [] True))) = [3 / 40]"
proof -
  have h1: "engine (example_state [] True) = Some (example_engine [] True)"
    by (rule example_engine_state)
  have h2: "example_convert ''solid'' ''3mf'' = ([1 / 4], Inl ''unsupported'')"
    by (simp add: example_convert_def)
  show ?thesis
    using h1 h2
      conversion_error_is_returned [where convert = example_convert and generate = "\<lambda>_ _. []"
        and command = None and overrides = None and verbose = None, OF h1 h2]
    by (simp add: ex_defs subscribed_def converterBias_def)
qed

subsection \<open>The argument vector\<close>

text \<open>C7: with a raw command string, \<open>run\<close> does not depend on the synthesizer or on
  the override list at all, and the external calls it makes are the conversion and then,
  once the model file is written, \<open>callMain\<close> on exactly the command split at its
  spaces. No call to the synthesizer is among them: it is invoked only when the command
  is \<open>null\<close>. The split command is the vector the engine really gets: whatever
  \<open>callMain\<close> does on \<open>split_space c\<close> and the filesystem holding the model file
  (the hook calls it makes, the filesystem it leaves, whether it returns) is what
  \<open>run\<close> carries on with. The progress it emits comes from those hook calls, a throw
  of that call is the fault of \<open>run\<close>, and the G-code it transfers is read from the
  filesystem that call left.\<close>

theorem raw_command_bypasses_synthesis:
  assumes "engine s = Some e"
  shows "run convert generate (Some c) overrides verbose buffer extension s =
           run convert generate' (Some c) overrides' verbose buffer extension s
       \<and> calls (snd (run convert generate (Some c) overrides verbose buffer extension s)) =
           calls s @ Convert buffer extension #
             (case snd (convert buffer extension) of
                Inl _ \<Rightarrow> []
              | Inr stl \<Rightarrow>
                  (case writeFile ''Model.stl'' stl (FS e) of
                     Inl _ \<Rightarrow> []
                   | Inr _ \<Rightarrow> [CallMain (split_space c)]))
       \<and> (convert buffer extension = (reports, Inr stl)
            \<and> writeFile ''Model.stl'' stl (FS e) = Inr f1
            \<and> callMain e (split_space c) f1 = (cs, f2, returned)
          \<longrightarrow> run convert generate (Some c) overrides verbose buffer extension s =
                (let sE = after_engine
                      (before_engine s e buffer extension reports (Some c) overrides verbose
                         (split_space c) f1) e (split_space c) cs f2
                 in if returned then run_tail sE else (Inl Abort, sE))
            \<and> progress_emitted
                 (snd (run convert generate (Some c) overrides verbose buffer extension s)) =
                progress_emitted s @
                  (if subscribed (progressObserver s)
                   then map (\<lambda>p. p * converterBias extension) reports @
                        map (\<lambda>r. r * slicerBias extension + converterBias extension)
                          (tl (remdups_adj (0 # map two_decimals (progress_values cs))))
                   else [])
            \<and> (\<not> returned \<longrightarrow>
                  fst (run convert generate (Some c) overrides verbose buffer extension s) =
                    Inl Abort
                \<and> engine (snd (run convert generate (Some c) overrides verbose buffer extension s)) =
                    Some (e\<lparr>FS := f2\<rparr>))
            \<and> (returned \<and> readFile ''Model.gcode'' f2 = Inr gcode
                  \<and> unlink ''Model.stl'' f2 = Inr f3 \<and> unlink ''Model.gcode'' f3 = Inr f4 \<longrightarrow>
                  fst (run convert generate (Some c) overrides verbose buffer extension s) =
                    Inr (Transfer gcode)
                \<and> engine (snd (run convert generate (Some c) overrides verbose buffer extension s)) =
                    Some (e\<lparr>FS := f4\<rparr>)))"
proof -
  have indep: "run convert generate (Some c) overrides verbose buffer extension s =
           run convert generate' (Some c) overrides' verbose buffer extension s"
    unfolding run_def make_args_Some by (rule refl)
  have calls_eq: "calls (snd (run convert generate (Some c) overrides verbose buffer extension s)) =
           calls s @ Convert buffer extension #
             (case snd (convert buffer extension) of
                Inl _ \<Rightarrow> []
              | Inr stl \<Rightarrow>
                  (case writeFile ''Model.stl'' stl (FS e) of
                     Inl _ \<Rightarrow> []
                   | Inr _ \<Rightarrow> [CallMain (split_space c)]))"
  proof (cases "convert buffer extension")
    case (Pair reports res)
    show ?thesis
    proof (cases res)
      case (Inl err)
      then show ?thesis
        using Pair run_conversion_error [where convert = convert and err = err, OF assms]
        by simp
    next
      case (Inr stl)
      show ?thesis
      proof (cases "writeFile ''Model.stl'' stl (FS e)")
        case (Inl err)
        then show ?thesis
          using Pair Inr run_write_error [where convert = convert and err = err, OF assms]
          by simp
      next
        case f1: (Inr f1)
        obtain cs f2 returned where m: "callMain e (split_space c) f1 = (cs, f2, returned)"
          by (metis prod_cases3)
        have cv: "convert buffer extension = (reports, Inr stl)"
          using Pair Inr by simp
        have a: "split_space c =
            (case Some c of None \<Rightarrow> generate overrides verbose | Some c \<Rightarrow> split_space c)"
          by simp
        show ?thesis
          using run_engine_reached(2) [where convert = convert and generate = generate,
              OF assms cv f1 a m] cv f1
          by simp
      qed
    qed
  qed
  have engine_part: "run convert generate (Some c) overrides verbose buffer extension s =
                (let sE = after_engine
                      (before_engine s e buffer extension reports (Some c) overrides verbose
                         (split_space c) f1) e (split_space c) cs f2
                 in if returned then run_tail sE else (Inl Abort, sE))
            \<and> progress_emitted
                 (snd (run convert generate (Some c) overrides verbose buffer extension s)) =
                progress_emitted s @
                  (if subscribed (progressObserver s)
                   then map (\<lambda>p. p * converterBias extension) reports @
                        map (\<lambda>r. r * slicerBias extension + converterBias extension)
                          (tl (remdups_adj (0 # map two_decimals (progress_values cs))))
                   else [])
            \<and> (\<not> returned \<longrightarrow>
                  fst (run convert generate (Some c) overrides verbose buffer extension s) =
                    Inl Abort
                \<and> engine (snd (run convert generate (Some c) overrides verbose buffer extension s)) =
                    Some (e\<lparr>FS := f2\<rparr>))
            \<and> (returned \<and> readFile ''Model.gcode'' f2 = Inr gcode
                  \<and> unlink ''Model.stl'' f2 = Inr f3 \<and> unlink ''Model.gcode'' f3 = Inr f4 \<longrightarrow>
                  fst (run convert generate (Some c) overrides verbose buffer extension s) =
                    Inr (Transfer gcode)
                \<and> engine (snd (run convert generate (Some c) overrides verbose buffer extension s)) =
                    Some (e\<lparr>FS := f4\<rparr>))"
    if cv: "convert buffer extension = (reports, Inr stl)"
      and w: "writeFile ''Model.stl'' stl (FS e) = Inr f1"
      and m: "callMain e (split_space c) f1 = (cs, f2, returned)"
  proof -
    have a: "split_space c =
        (case Some c of None \<Rightarrow> generate overrides verbose | Some c \<Rightarrow> split_space c)"
      by simp
    define sE where "sE = after_engine
          (before_engine s e buffer extension reports (Some c) overrides verbose
             (split_space c) f1) e (split_space c) cs f2"
    have r: "run convert generate (Some c) overrides verbose buffer extension s =
        (if returned then run_tail sE else (Inl Abort, sE))"
      using run_to_engine [where convert = convert and generate = generate, OF assms cv w a m]
      by (simp add: sE_def Let_def)
    have en: "engine sE = Some (e\<lparr>FS := f2\<rparr>)"
      unfolding sE_def
      by (rule after_engine_fields(5) [OF before_engine_fields(2) before_engine_fields(3)])
    have harvest: "fst (run_tail sE) = Inr (Transfer gcode)
        \<and> engine (snd (run_tail sE)) = Some (e\<lparr>FS := f4\<rparr>)"
      if "readFile ''Model.gcode'' f2 = Inr gcode" "unlink ''Model.stl'' f2 = Inr f3"
        "unlink ''Model.gcode'' f3 = Inr f4"
      using run_tail_harvest [OF en _ that] by simp
    show ?thesis
      using r en harvest
        run_engine_reached(1) [where convert = convert and generate = generate,
          OF assms cv w a m]
      by (simp add: sE_def Let_def)
  qed
  show ?thesis
    using indep calls_eq engine_part by blast
qed

theorem raw_command_bypasses_synthesis_witness:
  "engine (example_state [ProgressCall (1 / 2)] True) = Some (example_engine [ProgressCall (1 / 2)] True)
   \<and> run example_convert (\<lambda>_ _. [''slice'']) (Some ''slice -l Model.stl -o Model.gcode'')
        (Some [\<lparr>scope = None, key = ''layer_height'', override_value = ''0.2''\<rparr>]) (Some True)
        ''solid'' ''stl'' (example_state [ProgressCall (1 / 2)] True) =
       run example_convert (\<lambda>_ _. []) (Some ''slice -l Model.stl -o Model.gcode'')
        None (Some True) ''solid'' ''stl'' (example_state [ProgressCall (1 / 2)] True)
   \<and> calls (snd (run example_convert (\<lambda>_ _. [''slice''])
        (Some ''slice -l Model.stl -o Model.gcode'')
        (Some [\<lparr>scope = None, key = ''layer_height'', override_value = ''0.2''\<rparr>]) (Some True)
        ''solid'' ''stl'' (example_state [ProgressCall (1 / 2)] True))) =
       [Convert ''solid'' ''stl'', CallMain [''slice'', ''-l'', ''Model.stl'', ''-o'', ''Model.gcode'']]
   \<and> callMain (example_engine [ProgressCall (1 / 2)] True)
        (split_space ''slice -l Model.stl -o Model.gcode'')
        \<lparr>dirs = [''/''], files = [(''/Model.stl'', ''solid'')]\<rparr> =
       ([ProgressCall (1 / 2)],
        \<lparr>dirs = [''/''], files = [(''/Model.stl'', ''solid''), (''/Model.gcode'', ''G28'')]\<rparr>, True)
   \<and> fst (run example_convert (\<lambda>_ _. [''slice''])
        (Some ''slice -l Model.stl -o Model.gcode'')
        (Some [\<lparr>scope = None, key = ''layer_height'', override_value = ''0.2''\<rparr>]) (Some True)
        ''solid'' ''stl'' (example_state [ProgressCall (1 / 2)] True)) = Inr (Transfer ''G28'')
   \<and> progress_emitted (snd (run example_convert (\<lambda>_ _. [''slice''])
        (Some ''slice -l Model.stl -o Model.gcode'')
        (Some [\<lparr>scope = None, key = ''layer_height'', override_value = ''0.2''\<rparr>]) (Some True)
        ''solid'' ''stl'' (example_state [ProgressCall (1 / 2)] True))) = [1 / 2]
   \<and> engine (snd (run example_convert (\<lambda>_ _. [''slice''])
        (Some ''slice -l Model.stl -o Model.gcode'')
        (Some [\<lparr>scope = None, key = ''layer_height'', override_value = ''0.2''\<rparr>]) (Some True)
        ''solid'' ''stl'' (example_state [ProgressCall (1 / 2)] True))) =
       Some ((example_engine [ProgressCall (1 / 2)] True)\<lparr>FS := \<lparr>dirs = [''/''], files = []\<rparr>\<rparr>)
   \<and> fst (run example_convert (\<lambda>_ _. [''slice''])
        (Some ''slice -l Model.stl -o Model.gcode'')
        (Some [\<lparr>scope = None, key = ''layer_height'', override_value = ''0.2''\<rparr>]) (Some True)
        ''solid'' ''stl'' (example_state [ProgressCall (1 / 2)] False)) = Inl Abort"
proof -
  let ?cmd = "''slice -l Model.stl -o Model.gcode''"
  let ?ov = "Some [\<lparr>scope = None, key = ''layer_height'', override_value = ''0.2''\<rparr>]"
  let ?f1 = "\<lparr>dirs = [''/''], files = [(''/Model.stl'', ''solid'')]\<rparr>"
  let ?f2 = "\<lparr>dirs = [''/''], files = [(''/Model.stl'', ''solid''), (''/Model.gcode'', ''G28'')]\<rparr>"
  let ?f3 = "\<lparr>dirs = [''/''], files = [(''/Model.gcode'', ''G28'')]\<rparr>"
  let ?f4 = "\<lparr>dirs = [''/''], files = [] :: (string \<times> string) list\<rparr>"
  have h: "engine (example_state [ProgressCall (1 / 2)] r) =
      Some (example_engine [ProgressCall (1 / 2)] r)" for r
    by (rule example_engine_state)
  have c: "example_convert ''solid'' ''stl'' = ([], Inr ''solid'')"
    by (rule example_run_facts(2))
  have w: "writeFile ''Model.stl'' ''solid'' (FS (example_engine [ProgressCall (1 / 2)] r)) =
      Inr ?f1" for r
    by (rule example_run_facts(3))
  have m: "callMain (example_engine [ProgressCall (1 / 2)] r) (split_space ?cmd) ?f1 =
      ([ProgressCall (1 / 2)], ?f2, r)" for r
    by (rule example_run_facts(4))
  have k: "calls (example_state [ProgressCall (1 / 2)] True) = []"
    by (simp add: ex_defs)
  have rd: "readFile ''Model.gcode'' ?f2 = Inr ''G28''"
    and u1: "unlink ''Model.stl'' ?f2 = Inr ?f3"
    and u2: "unlink ''Model.gcode'' ?f3 = Inr ?f4"
    by (simp_all add: readFile_def unlink_def resolve_def is_dir_def is_file_def AList.delete_eq)
  have half: "two_decimals (1 / 2) = 1 / 2"
    by (simp add: two_decimals_def Math_round_def)
  note t = raw_command_bypasses_synthesis [where convert = example_convert
        and generate = "\<lambda>_ _. [''slice'']" and generate' = "\<lambda>_ _. []"
        and c = ?cmd and overrides = ?ov
        and overrides' = None and verbose = "Some True" and buffer = "''solid''"
        and extension = "''stl''" and reports = "[]" and stl = "''solid''"
        and ?f1.0 = ?f1 and cs = "[ProgressCall (1 / 2)]" and ?f2.0 = ?f2
        and gcode = "''G28''" and ?f3.0 = ?f3 and ?f4.0 = ?f4]
  note t1 = t [where returned = True, OF h [of True]]
  note t2 = t [where returned = False, OF h [of False]]
  have e1: "fst (run example_convert (\<lambda>_ _. [''slice'']) (Some ?cmd) ?ov (Some True)
        ''solid'' ''stl'' (example_state [ProgressCall (1 / 2)] True)) = Inr (Transfer ''G28'')
      \<and> engine (snd (run example_convert (\<lambda>_ _. [''slice'']) (Some ?cmd) ?ov (Some True)
        ''solid'' ''stl'' (example_state [ProgressCall (1 / 2)] True))) =
       Some ((example_engine [ProgressCall (1 / 2)] True)\<lparr>FS := ?f4\<rparr>)
      \<and> progress_emitted (snd (run example_convert (\<lambda>_ _. [''slice'']) (Some ?cmd) ?ov (Some True)
        ''solid'' ''stl'' (example_state [ProgressCall (1 / 2)] True))) = [1 / 2]"
    using t1 [THEN conjunct2, THEN conjunct2, THEN mp, OF conjI [OF c conjI [OF w m]],
        THEN conjunct2] rd u1 u2
    by (simp add: example_run_facts(5,6) half converterBias_def slicerBias_def)
  have e2: "fst (run example_convert (\<lambda>_ _. [''slice'']) (Some ?cmd) ?ov (Some True)
        ''solid'' ''stl'' (example_state [ProgressCall (1 / 2)] False)) = Inl Abort"
    using t2 [THEN conjunct2, THEN conjunct2, THEN mp, OF conjI [OF c conjI [OF w m]],
        THEN conjunct2]
    by simp
  show ?thesis
    using h [of True] t1 [THEN conjunct1] t1 [THEN conjunct2, THEN conjunct1] m [of True] e1 e2
    by (simp add: c w k)
qed

subsection \<open>The hooks after a run\<close>

text \<open>C1, as the code has it: in a run that reaches the engine, the progress hook is
  deleted as soon as \<open>callMain\<close> returns, before the output is read. When
  \<open>callMain\<close> throws, the fault leaves \<open>run\<close> at once and both hooks stay
  registered.\<close>

theorem progress_hook_released_on_return:
  assumes "engine s = Some e"
    and "convert buffer extension = (reports, Inr stl)"
    and "writeFile ''Model.stl'' stl (FS e) = Inr f1"
    and "args = (case command of None \<Rightarrow> generate overrides verbose | Some c \<Rightarrow> split_space c)"
    and "callMain e args f1 = (cs, f2, returned)"
  shows "(returned \<longrightarrow>
            progress_callback (snd (run convert generate command overrides verbose buffer extension s))
              = None)
       \<and> (\<not> returned \<longrightarrow>
            fst (run convert generate command overrides verbose buffer extension s) = Inl Abort
          \<and> progress_callback (snd (run convert generate command overrides verbose buffer extension s))
              \<noteq> None
          \<and> metadata_callback (snd (run convert generate command overrides verbose buffer extension s))
              \<noteq> None)"
  using run_engine_reached(3,4,5) [where convert = convert and generate = generate, OF assms]
  by simp

theorem progress_hook_released_on_return_witness:
  "progress_callback (snd (run example_convert (\<lambda>_ _. []) (Some ''slice'') None None
      ''solid'' ''stl'' (example_state [ProgressCall (1 / 2)] True))) = None
   \<and> fst (run example_convert (\<lambda>_ _. []) (Some ''slice'') None None
      ''solid'' ''stl'' (example_state [ProgressCall (1 / 2)] False)) = Inl Abort
   \<and> progress_callback (snd (run example_convert (\<lambda>_ _. []) (Some ''slice'') None None
      ''solid'' ''stl'' (example_state [ProgressCall (1 / 2)] False))) \<noteq> None
   \<and> metadata_callback (snd (run example_convert (\<lambda>_ _. []) (Some ''slice'') None None
      ''solid'' ''stl'' (example_state [ProgressCall (1 / 2)] False))) \<noteq> None"
proof -
  have e: "engine (example_state [ProgressCall (1 / 2)] r) =
      Some (example_engine [ProgressCall (1 / 2)] r)" for r
    by (rule example_engine_state)
  have c: "example_convert ''solid'' ''stl'' = ([], Inr ''solid'')"
    by (simp add: example_convert_def)
  have w: "writeFile ''Model.stl'' ''solid'' (FS (example_engine [ProgressCall (1 / 2)] r)) =
      Inr \<lparr>dirs = [''/''], files = [(''/Model.stl'', ''solid'')]\<rparr>" for r
    by (simp add: example_engine_def writeFile_def resolve_def dirname_def is_dir_def is_file_def)
  have a: "[''slice''] =
      (case Some ''slice'' of None \<Rightarrow> (\<lambda>_ _. []) None None | Some c \<Rightarrow> split_space c)"
    by simp
  have m: "callMain (example_engine [ProgressCall (1 / 2)] r) [''slice'']
       \<lparr>dirs = [''/''], files = [(''/Model.stl'', ''solid'')]\<rparr> =
     ([ProgressCall (1 / 2)],
      \<lparr>dirs = [''/''], files = [(''/Model.stl'', ''solid''), (''/Model.gcode'', ''G28'')]\<rparr>, r)" for r
    by (simp add: example_engine_def)
  show ?thesis
    using progress_hook_released_on_return [where convert = example_convert
        and generate = "\<lambda>_ _. []" and overrides = None and verbose = None, OF e c w a m, of True]
      progress_hook_released_on_return [where convert = example_convert
        and generate = "\<lambda>_ _. []" and overrides = None and verbose = None, OF e c w a m, of False]
    by simp
qed

text \<open>C1 as stated fails: after a run whose engine throws, both hooks are still
  registered; and after a run that succeeds, the metadata hook is.\<close>

theorem hooks_survive_counterexample:
  "fst (run example_convert example_generate None None None ''solid'' ''stl''
      (example_state [ProgressCall (1 / 2)] False)) = Inl Abort
   \<and> progress_callback (snd (run example_convert example_generate None None None ''solid'' ''stl''
      (example_state [ProgressCall (1 / 2)] False))) \<noteq> None
   \<and> metadata_callback (snd (run example_convert example_generate None None None ''solid'' ''stl''
      (example_state [ProgressCall (1 / 2)] False))) \<noteq> None
   \<and> fst (run example_convert example_generate None None None ''solid'' ''stl''
      (example_state [ProgressCall (1 / 2)] True)) = Inr (Transfer ''G28'')
   \<and> metadata_callback (snd (run example_convert example_generate None None None ''solid'' ''stl''
      (example_state [ProgressCall (1 / 2)] True))) \<noteq> None"
  by (simp add: ex_defs run_defs)

subsection \<open>The progress stream\<close>

text \<open>C2: take a run that reaches the engine (every successful run does), in which the
  converter reports the fractions \<open>reports\<close> and the engine calls the progress hook
  with the fractions \<open>progress_values cs\<close>, both non-decreasing and within \<open>[0, 1]\<close>.
  The values handed to the progress subscriber during the run are the converter's
  fractions times \<open>converterBias\<close>, followed by the rounded engine fractions that pass
  the hook's test, each times \<open>slicerBias\<close> plus \<open>converterBias\<close>; that sequence is
  non-decreasing and every value lies in \<open>[0, 1]\<close>. Without a subscriber nothing is
  emitted.\<close>

theorem emitted_progress_monotone:
  assumes "engine s = Some e"
    and "convert buffer extension = (reports, Inr stl)"
    and "writeFile ''Model.stl'' stl (FS e) = Inr f1"
    and "args = (case command of None \<Rightarrow> generate overrides verbose | Some c \<Rightarrow> split_space c)"
    and "callMain e args f1 = (cs, f2, returned)"
    and "sorted reports" and "\<forall>p\<in>set reports. 0 \<le> p \<and> p \<le> 1"
    and "sorted (progress_values cs)" and "\<forall>x\<in>set (progress_values cs). 0 \<le> x \<and> x \<le> 1"
  shows "let ys = (if subscribed (progressObserver s)
                   then map (\<lambda>p. p * converterBias extension) reports @
                        map (\<lambda>r. r * slicerBias extension + converterBias extension)
                          (tl (remdups_adj (0 # map two_decimals (progress_values cs))))
                   else [])
         in progress_emitted (snd (run convert generate command overrides verbose buffer extension s))
              = progress_emitted s @ ys
          \<and> sorted ys \<and> (\<forall>y\<in>set ys. 0 \<le> y \<and> y \<le> 1)"
proof -
  note b = converterBias_range [of extension]
  note bs = blended_sorted [OF assms(6-9) b [THEN conjunct1] b [THEN conjunct2]]
  show ?thesis
    using run_engine_reached(1) [where convert = convert and generate = generate, OF assms(1-5)] bs
    by (simp add: Let_def slicerBias_def)
qed

theorem emitted_progress_monotone_witness:
  "engine (example_state
      [ProgressCall (1 / 4), MetadataCall example_metadata, ProgressCall (251 / 1000),
       ProgressCall 1] True) =
     Some (example_engine
      [ProgressCall (1 / 4), MetadataCall example_metadata, ProgressCall (251 / 1000),
       ProgressCall 1] True)
   \<and> sorted [1 / 2, 1 :: real] \<and> sorted [1 / 4, 251 / 1000, 1 :: real]
   \<and> progress_emitted (snd (run example_convert (\<lambda>_ _. [''slice'']) None None None ''solid'' ''obj''
        (example_state
          [ProgressCall (1 / 4), MetadataCall example_metadata, ProgressCall (251 / 1000),
           ProgressCall 1] True))) = [3 / 20, 3 / 10, 19 / 40, 1]
   \<and> sorted [3 / 20, 3 / 10, 19 / 40, 1 :: real]"
proof -
  let ?cs = "[ProgressCall (1 / 4), MetadataCall example_metadata, ProgressCall (251 / 1000),
       ProgressCall 1]"
  have e: "engine (example_state ?cs True) = Some (example_engine ?cs True)"
    by (rule example_engine_state)
  have a: "[''slice''] =
      (case None of None \<Rightarrow> (\<lambda>_ _. [''slice'']) None None | Some c \<Rightarrow> split_space c)"
    by simp
  have s1: "sorted [1 / 2, 1 :: real]" by simp
  have b1: "\<forall>p\<in>set [1 / 2, 1 :: real]. 0 \<le> p \<and> p \<le> 1" by simp
  have s2: "sorted (progress_values ?cs)" by simp
  have b2: "\<forall>x\<in>set (progress_values ?cs). 0 \<le> x \<and> x \<le> 1" by simp
  show ?thesis
    using e s1
      emitted_progress_monotone [where convert = example_convert
        and generate = "\<lambda>_ _. [''slice'']" and overrides = None and verbose = None,
        OF e example_run_facts(1) example_run_facts(3) a example_run_facts(4) s1 b1 s2 b2]
    by (simp add: Let_def example_run_facts converterBias_def slicerBias_def two_decimals_def
        Math_round_def)
qed

text \<open>C6: the weight of the conversion phase is 0 exactly for the extension \<open>stl\<close>
  and \<open>3/10\<close> for every other extension, and the weight of the engine phase is 1 minus
  it. These are the weights \<open>run\<close> uses: with a subscriber, the values it emits are
  the converter's fractions times the first weight, then the forwarded engine values
  times the second plus the first.\<close>

theorem bias_weights:
  "(converterBias extension = 0 \<longleftrightarrow> extension = ''stl'')
   \<and> (extension \<noteq> ''stl'' \<longrightarrow> converterBias extension = 3 / 10)
   \<and> slicerBias extension = 1 - converterBias extension
   \<and> (engine s = Some e \<and> convert buffer extension = (reports, Inr stl)
        \<and> writeFile ''Model.stl'' stl (FS e) = Inr f1
        \<and> callMain e (case command of None \<Rightarrow> generate overrides verbose
                                   | Some c \<Rightarrow> split_space c) f1 = (cs, f2, returned)
        \<and> subscribed (progressObserver s)
      \<longrightarrow> progress_emitted (snd (run convert generate command overrides verbose buffer extension s))
          = progress_emitted s
            @ map (\<lambda>p. p * (if extension = ''stl'' then 0 else 3 / 10)) reports
            @ map (\<lambda>r. r * (1 - (if extension = ''stl'' then 0 else 3 / 10))
                         + (if extension = ''stl'' then 0 else 3 / 10))
                (tl (remdups_adj (0 # map two_decimals (progress_values cs)))))"
proof -
  have "progress_emitted (snd (run convert generate command overrides verbose buffer extension s))
          = progress_emitted s
            @ map (\<lambda>p. p * (if extension = ''stl'' then 0 else 3 / 10)) reports
            @ map (\<lambda>r. r * (1 - (if extension = ''stl'' then 0 else 3 / 10))
                         + (if extension = ''stl'' then 0 else 3 / 10))
                (tl (remdups_adj (0 # map two_decimals (progress_values cs))))"
    if h: "engine s = Some e" "convert buffer extension = (reports, Inr stl)"
      "writeFile ''Model.stl'' stl (FS e) = Inr f1"
      "callMain e (case command of None \<Rightarrow> generate overrides verbose
                                   | Some c \<Rightarrow> split_space c) f1 = (cs, f2, returned)"
      and sub: "subscribed (progressObserver s)"
    using run_engine_reached(1) [where convert = convert and generate = generate,
        OF h(1) h(2) h(3) refl h(4)] sub
    by (simp add: converterBias_def slicerBias_def)
  then show ?thesis
    by (simp add: converterBias_def slicerBias_def)
qed

theorem bias_weights_witness:
  "converterBias ''stl'' = 0 \<and> slicerBias ''stl'' = 1
   \<and> converterBias ''obj'' = 3 / 10 \<and> slicerBias ''obj'' = 7 / 10
   \<and> progress_emitted (snd (run example_convert (\<lambda>_ _. []) (Some ''slice'') None None
        ''solid'' ''obj'' (example_state [ProgressCall (1 / 2), ProgressCall 1] True)))
      = [3 / 20, 3 / 10, 13 / 20, 1]"
proof -
  let ?cs = "[ProgressCall (1 / 2), ProgressCall 1]"
  have e: "engine (example_state ?cs True) = Some (example_engine ?cs True)"
    by (rule example_engine_state)
  have m: "callMain (example_engine ?cs True)
      (case Some ''slice'' of None \<Rightarrow> (\<lambda>_ _. []) None None | Some c \<Rightarrow> split_space c)
      \<lparr>dirs = [''/''], files = [(''/Model.stl'', ''solid'')]\<rparr> =
    (?cs, \<lparr>dirs = [''/''], files = [(''/Model.stl'', ''solid''), (''/Model.gcode'', ''G28'')]\<rparr>,
     True)"
    by (rule example_run_facts(4))
  note t1 = bias_weights [where extension = "''stl''"]
  note t2 = bias_weights [where extension = "''obj''" and convert = example_convert
      and generate = "\<lambda>_ _. []" and command = "Some ''slice''" and overrides = None
      and verbose = None and buffer = "''solid''" and s = "example_state ?cs True"
      and e = "example_engine ?cs True" and reports = "[1 / 2, 1]" and stl = "''solid''"
      and ?f1.0 = "\<lparr>dirs = [''/''], files = [(''/Model.stl'', ''solid'')]\<rparr>"
      and cs = "?cs" and returned = True
      and ?f2.0 = "\<lparr>dirs = [''/''], files = [(''/Model.stl'', ''solid''), (''/Model.gcode'', ''G28'')]\<rparr>"]
  have r: "progress_emitted (snd (run example_convert (\<lambda>_ _. []) (Some ''slice'') None None
        ''solid'' ''obj'' (example_state ?cs True)))
      = [3 / 20, 3 / 10, 13 / 20, 1]"
    using t2 e m
    by (simp add: example_run_facts two_decimals_def Math_round_def)
  show ?thesis
    using t1 t2 r by simp
qed

subsection \<open>Deduplication in the progress hook\<close>

text \<open>C5: while a progress hook is registered, two consecutive raw values that round
  to the same two decimals make the second one emit nothing. A value is forwarded only
  when its rounding differs from \<open>previousSlicerProgress\<close>, and forwarding sets
  \<open>previousSlicerProgress\<close> to that rounding, while a value that is not forwarded leaves
  it alone: under a subscriber \<open>previousSlicerProgress\<close> is the rounded value forwarded
  last.\<close>

theorem slicer_progress_deduplicated:
  assumes "progress_callback s = Some c"
  shows "(two_decimals a = two_decimals b \<longrightarrow>
            progress_emitted (cura_wasm_progress_callback b (cura_wasm_progress_callback a s)) =
            progress_emitted (cura_wasm_progress_callback a s))
       \<and> (progress_emitted (cura_wasm_progress_callback x s) \<noteq> progress_emitted s \<longrightarrow>
            two_decimals x \<noteq> previousSlicerProgress c
          \<and> progress_emitted (cura_wasm_progress_callback x s) =
              progress_emitted s @ [two_decimals x * captured_slicerBias c + captured_converterBias c]
          \<and> progress_callback (cura_wasm_progress_callback x s) =
              Some (c\<lparr>previousSlicerProgress := two_decimals x\<rparr>))
       \<and> (subscribed (progressObserver s) \<longrightarrow>
            progress_emitted (cura_wasm_progress_callback x s) = progress_emitted s \<longrightarrow>
            progress_callback (cura_wasm_progress_callback x s) = Some c)"
proof (intro conjI impI)
  assume ab: "two_decimals a = two_decimals b"
  have "progress_callback (cura_wasm_progress_callback a s) =
      Some (c\<lparr>previousSlicerProgress := two_decimals a\<rparr>)"
    using assms by (simp add: cura_wasm_progress_callback_def Let_def emit_progress_def)
  then show "progress_emitted (cura_wasm_progress_callback b (cura_wasm_progress_callback a s)) =
            progress_emitted (cura_wasm_progress_callback a s)"
    using ab by (simp add: cura_wasm_progress_callback_def [of b] Let_def)
next
  assume "progress_emitted (cura_wasm_progress_callback x s) \<noteq> progress_emitted s"
  then have ne: "two_decimals x \<noteq> previousSlicerProgress c" and sub: "subscribed (progressObserver s)"
    using assms
    by (auto simp add: cura_wasm_progress_callback_def Let_def emit_progress_def split: if_splits)
  show "two_decimals x \<noteq> previousSlicerProgress c" by (rule ne)
  show "progress_emitted (cura_wasm_progress_callback x s) =
      progress_emitted s @ [two_decimals x * captured_slicerBias c + captured_converterBias c]"
    using assms ne sub by (simp add: cura_wasm_progress_callback_def Let_def emit_progress_def)
  show "progress_callback (cura_wasm_progress_callback x s) =
      Some (c\<lparr>previousSlicerProgress := two_decimals x\<rparr>)"
    using assms ne sub by (simp add: cura_wasm_progress_callback_def Let_def emit_progress_def)
next
  assume "subscribed (progressObserver s)"
    and "progress_emitted (cura_wasm_progress_callback x s) = progress_emitted s"
  then show "progress_callback (cura_wasm_progress_callback x s) = Some c"
    using assms
    by (simp add: cura_wasm_progress_callback_def Let_def emit_progress_def split: if_splits)
qed

theorem slicer_progress_deduplicated_witness:
  "two_decimals (501 / 1000) = two_decimals (503 / 1000)
   \<and> progress_emitted (cura_wasm_progress_callback (501 / 1000)
        (register_callbacks (3 / 10) (7 / 10) (example_state [] True))) = [13 / 20]
   \<and> progress_emitted (cura_wasm_progress_callback (503 / 1000)
        (cura_wasm_progress_callback (501 / 1000)
          (register_callbacks (3 / 10) (7 / 10) (example_state [] True)))) = [13 / 20]
   \<and> progress_callback (cura_wasm_progress_callback (501 / 1000)
        (register_callbacks (3 / 10) (7 / 10) (example_state [] True))) =
       Some \<lparr>captured_converterBias = 3 / 10, captured_slicerBias = 7 / 10,
             previousSlicerProgress = 1 / 2\<rparr>
   \<and> progress_emitted (cura_wasm_progress_callback (1 / 1000)
        (register_callbacks (3 / 10) (7 / 10) (example_state [] True))) = []
   \<and> progress_callback (cura_wasm_progress_callback (1 / 1000)
        (register_callbacks (3 / 10) (7 / 10) (example_state [] True))) =
       Some \<lparr>captured_converterBias = 3 / 10, captured_slicerBias = 7 / 10,
             previousSlicerProgress = 0\<rparr>"
proof -
  let ?s = "register_callbacks (3 / 10) (7 / 10) (example_state [] True)"
  have r: "two_decimals (501 / 1000) = 1 / 2" "two_decimals (503 / 1000) = 1 / 2"
    "two_decimals (1 / 1000) = 0"
    by (simp_all add: two_decimals_def Math_round_def)
  have sub: "subscribed (progressObserver ?s)" and em: "progress_emitted ?s = []"
    by (simp_all add: register_callbacks_def example_run_facts)
  have one: "progress_emitted (cura_wasm_progress_callback (501 / 1000) ?s) = [13 / 20]"
    using sub em registered_example
    by (simp add: cura_wasm_progress_callback_def emit_progress_def r Let_def)
  have zero: "progress_emitted (cura_wasm_progress_callback (1 / 1000) ?s) = []"
    using sub em registered_example
    by (simp add: cura_wasm_progress_callback_def emit_progress_def r Let_def)
  note t1 = slicer_progress_deduplicated [OF registered_example,
      where a = "501 / 1000" and b = "503 / 1000" and x = "501 / 1000"]
  note t2 = slicer_progress_deduplicated [OF registered_example,
      where a = "501 / 1000" and b = "503 / 1000" and x = "1 / 1000"]
  show ?thesis
    using t1 t2 r sub em one zero by simp
qed

text \<open>C10, as the code has it: the hook is registered with \<open>previousSlicerProgress = 0\<close>.
  A raw value that rounds to 0.00 is then not forwarded exactly when the progress
  value received just before it in the run also rounds to 0.00, or there is none yet (or
  nobody subscribed); after a value with another rounding it is forwarded. In a run,
  the first value the engine phase emits comes from a rounding different from 0.\<close>

theorem zero_progress_forwarding:
  "progress_callback (register_callbacks cBias sBias s) =
     Some \<lparr>captured_converterBias = cBias, captured_slicerBias = sBias,
           previousSlicerProgress = 0\<rparr>
   \<and> (two_decimals x = 0 \<longrightarrow>
        (progress_emitted (cura_wasm_progress_callback x
            (foldl invoke (register_callbacks cBias sBias s) pre)) =
         progress_emitted (foldl invoke (register_callbacks cBias sBias s) pre))
        = (last (0 # map two_decimals (progress_values pre)) = 0
           \<or> \<not> subscribed (progressObserver s)))
   \<and> (engine s = Some e \<and> convert buffer extension = (reports, Inr stl)
        \<and> writeFile ''Model.stl'' stl (FS e) = Inr f1
        \<and> callMain e (case command of None \<Rightarrow> generate overrides verbose
                                   | Some c \<Rightarrow> split_space c) f1 = (cs, f2, returned)
        \<and> subscribed (progressObserver s)
      \<longrightarrow> progress_emitted (snd (run convert generate command overrides verbose buffer extension s))
          = progress_emitted s
            @ map (\<lambda>p. p * converterBias extension) reports
            @ map (\<lambda>r. r * slicerBias extension + converterBias extension)
                (tl (remdups_adj (0 # map two_decimals (progress_values cs))))
        \<and> (tl (remdups_adj (0 # map two_decimals (progress_values cs))) \<noteq> [] \<longrightarrow>
             hd (tl (remdups_adj (0 # map two_decimals (progress_values cs)))) \<noteq> 0))"
proof (intro conjI impI)
  let ?c0 = "\<lparr>captured_converterBias = cBias, captured_slicerBias = sBias,
           previousSlicerProgress = 0\<rparr>"
  let ?s0 = "register_callbacks cBias sBias s"
  show p0: "progress_callback ?s0 = Some ?c0"
    by (simp add: register_callbacks_def)
  have m0: "metadata_callback ?s0 = Some ()"
    by (simp add: register_callbacks_def)
  have o0: "progressObserver ?s0 = progressObserver s"
    by (simp add: register_callbacks_def)
  define t where "t = foldl invoke ?s0 pre"
  have pt: "progress_callback t =
      Some (?c0\<lparr>previousSlicerProgress := last (0 # map two_decimals (progress_values pre))\<rparr>)"
    and ot: "progressObserver t = progressObserver s"
    unfolding t_def invoke_foldl [OF p0 m0] by (simp_all add: o0)
  assume x: "two_decimals x = 0"
  show "(progress_emitted (cura_wasm_progress_callback x (foldl invoke ?s0 pre)) =
         progress_emitted (foldl invoke ?s0 pre))
        = (last (0 # map two_decimals (progress_values pre)) = 0
           \<or> \<not> subscribed (progressObserver s))"
    unfolding t_def [symmetric]
    using pt ot x
    by (simp add: cura_wasm_progress_callback_def Let_def emit_progress_def)
next
  assume h: "engine s = Some e \<and> convert buffer extension = (reports, Inr stl)
        \<and> writeFile ''Model.stl'' stl (FS e) = Inr f1
        \<and> callMain e (case command of None \<Rightarrow> generate overrides verbose
                                   | Some c \<Rightarrow> split_space c) f1 = (cs, f2, returned)
        \<and> subscribed (progressObserver s)"
  show "progress_emitted (snd (run convert generate command overrides verbose buffer extension s))
          = progress_emitted s
            @ map (\<lambda>p. p * converterBias extension) reports
            @ map (\<lambda>r. r * slicerBias extension + converterBias extension)
                (tl (remdups_adj (0 # map two_decimals (progress_values cs))))"
    using run_engine_reached(1) [where convert = convert and generate = generate,
        OF h [THEN conjunct1] h [THEN conjunct2, THEN conjunct1]
          h [THEN conjunct2, THEN conjunct2, THEN conjunct1] refl
          h [THEN conjunct2, THEN conjunct2, THEN conjunct2, THEN conjunct1]] h
    by simp
next
  assume "tl (remdups_adj (0 # map two_decimals (progress_values cs))) \<noteq> []"
  then show "hd (tl (remdups_adj (0 # map two_decimals (progress_values cs)))) \<noteq> 0"
    by (rule first_forwarded_nonzero)
qed

theorem zero_progress_forwarding_witness:
  "two_decimals (1 / 1000) = 0
   \<and> progress_emitted (cura_wasm_progress_callback (1 / 1000)
        (foldl invoke (register_callbacks 0 1 (example_state [] True)) [ProgressCall (4 / 1000)]))
      = progress_emitted
        (foldl invoke (register_callbacks 0 1 (example_state [] True)) [ProgressCall (4 / 1000)])
   \<and> progress_emitted (cura_wasm_progress_callback (1 / 1000)
        (foldl invoke (register_callbacks 0 1 (example_state [] True)) [ProgressCall (1 / 2)]))
      \<noteq> progress_emitted
        (foldl invoke (register_callbacks 0 1 (example_state [] True)) [ProgressCall (1 / 2)])
   \<and> progress_emitted (snd (run example_convert (\<lambda>_ _. []) (Some ''slice'') None None
        ''solid'' ''stl'' (example_state [ProgressCall (1 / 1000), ProgressCall (1 / 2)] True)))
      = [1 / 2]"
proof -
  let ?cs = "[ProgressCall (1 / 1000), ProgressCall (1 / 2)]"
  have r: "two_decimals (1 / 1000) = 0" "two_decimals (4 / 1000) = 0" "two_decimals (1 / 2) = 1 / 2"
    by (simp_all add: two_decimals_def Math_round_def)
  have e: "engine (example_state ?cs True) = Some (example_engine ?cs True)"
    by (rule example_engine_state)
  have m: "callMain (example_engine ?cs True)
      (case Some ''slice'' of None \<Rightarrow> (\<lambda>_ _. []) None None | Some c \<Rightarrow> split_space c)
      \<lparr>dirs = [''/''], files = [(''/Model.stl'', ''solid'')]\<rparr> =
    (?cs, \<lparr>dirs = [''/''], files = [(''/Model.stl'', ''solid''), (''/Model.gcode'', ''G28'')]\<rparr>,
     True)"
    by (rule example_run_facts(4))
  note t1 = zero_progress_forwarding [where x = "1 / 1000" and pre = "[ProgressCall (4 / 1000)]"
      and s = "example_state [] True" and cBias = 0 and sBias = 1, THEN conjunct2, THEN conjunct1]
  note t2 = zero_progress_forwarding [where x = "1 / 1000" and pre = "[ProgressCall (1 / 2)]"
      and s = "example_state [] True" and cBias = 0 and sBias = 1, THEN conjunct2, THEN conjunct1]
  note t3 = zero_progress_forwarding [where extension = "''stl''" and convert = example_convert
      and generate = "\<lambda>_ _. []" and command = "Some ''slice''" and overrides = None
      and verbose = None and buffer = "''solid''" and s = "example_state ?cs True"
      and e = "example_engine ?cs True" and reports = "[]" and stl = "''solid''"
      and ?f1.0 = "\<lparr>dirs = [''/''], files = [(''/Model.stl'', ''solid'')]\<rparr>"
      and cs = "?cs" and returned = True
      and ?f2.0 = "\<lparr>dirs = [''/''], files = [(''/Model.stl'', ''solid''), (''/Model.gcode'', ''G28'')]\<rparr>",
      THEN conjunct2, THEN conjunct2]
  have a: "progress_emitted (snd (run example_convert (\<lambda>_ _. []) (Some ''slice'') None None
        ''solid'' ''stl'' (example_state ?cs True))) = [1 / 2]"
    using t3 e m
    by (simp add: example_run_facts r converterBias_def slicerBias_def)
  show ?thesis
    using t1 t2 a r by (simp add: example_run_facts)
qed

text \<open>C10 as stated fails: the engine reports 0.5 and then 0.001, which rounds to 0.00
  and is forwarded, as the blended value 0.\<close>

theorem zero_progress_forwarded_counterexample:
  "two_decimals (1 / 1000) = 0
   \<and> progress_emitted (snd (run example_convert example_generate None None None ''solid'' ''stl''
        (example_state [ProgressCall (1 / 2), ProgressCall (1 / 1000)] True))) = [1 / 2, 0]"
  by (simp add: ex_defs run_defs)

subsection \<open>Staged paths\<close>

lemma digit_cases: "d < 10 \<Longrightarrow> d \<in> {0, 1, 2, 3, 4, 5, 6, 7, 8, 9 :: nat}"
  by auto

lemma digit_value: "d < 10 \<Longrightarrow> (of_char (digit d) :: nat) = 48 + d"
  using digit_cases [of d] by (auto simp: digit_def)

lemma digit_not_slash: "d < 10 \<Longrightarrow> CHR ''/'' \<noteq> digit d"
  using digit_cases [of d] by (auto simp: digit_def)

lemma nat_of_string_of_nat: "nat_of_string (string_of_nat n) = n"
proof (induction n rule: string_of_nat.induct)
  case (1 n)
  show ?case
  proof (cases "n < 10")
    case True
    then show ?thesis
      by (simp add: string_of_nat.simps [of n] nat_of_string_def digit_value)
  next
    case False
    have "nat_of_string (string_of_nat n) =
        10 * nat_of_string (string_of_nat (n div 10)) + (of_char (digit (n mod 10)) - 48)"
      using False by (simp add: string_of_nat.simps [of n] nat_of_string_def)
    also have "\<dots> = 10 * (n div 10) + n mod 10"
      using 1 False by (simp add: digit_value)
    finally show ?thesis by simp
  qed
qed

lemma string_of_nat_inj: "string_of_nat m = string_of_nat n \<Longrightarrow> m = n"
  by (metis nat_of_string_of_nat)

lemma string_of_nat_no_slash: "CHR ''/'' \<notin> set (string_of_nat n)"
proof (induction n rule: string_of_nat.induct)
  case (1 n)
  show ?case
  proof (cases "n < 10")
    case True
    then show ?thesis
      by (simp add: string_of_nat.simps [of n] digit_not_slash)
  next
    case False
    then show ?thesis
      using 1 by (simp add: string_of_nat.simps [of n] digit_not_slash)
  qed
qed

lemma dirname_append:
  "CHR ''/'' \<notin> set n \<Longrightarrow> d \<noteq> [] \<Longrightarrow> dirname (d @ CHR ''/'' # n) = d"
proof -
  assume n: "CHR ''/'' \<notin> set n" and d: "d \<noteq> []"
  have "dropWhile (\<lambda>c. c \<noteq> CHR ''/'') (rev n @ CHR ''/'' # rev d) = CHR ''/'' # rev d"
    using n by (subst dropWhile_append2) auto
  then show ?thesis
    using d by (simp add: dirname_def Let_def)
qed

lemma resolve_absolute: "resolve (CHR ''/'' # p) = CHR ''/'' # p"
  by (simp add: resolve_def)

lemma def_path_inj: "def_path a = def_path b \<longleftrightarrow> a = b"
  by (simp add: def_path_def)

lemma staged_paths_names:
  "staged_paths definitions count = map def_path (staged_names definitions count)"
  by (simp add: staged_paths_def staged_names_def def_path_def case_prod_unfold comp_def)

lemma def_path_shape:
  assumes "CHR ''/'' \<notin> set base"
  shows "resolve (def_path base) = def_path base"
    and "dirname (def_path base) = ''/definitions''"
    and "def_path base \<noteq> ''/definitions''"
    and "def_path base \<noteq> ''/''"
proof -
  have eq: "def_path base = ''/definitions'' @ CHR ''/'' # (base @ ''.def.json'')"
    by (simp add: def_path_def)
  show "resolve (def_path base) = def_path base"
    by (simp add: def_path_def resolve_def)
  show "dirname (def_path base) = ''/definitions''"
    unfolding eq using assms by (intro dirname_append) auto
  show "def_path base \<noteq> ''/definitions''" "def_path base \<noteq> ''/''"
    by (simp_all add: def_path_def)
qed

lemma staged_names_no_slash:
  assumes "\<forall>name\<in>set (map fst definitions). CHR ''/'' \<notin> set name"
    and "base \<in> set (staged_names definitions count)"
  shows "CHR ''/'' \<notin> set base"
  using assms string_of_nat_no_slash by (auto simp: staged_names_def)

lemma staged_names_distinct:
  assumes "distinct (map fst definitions)"
    and "\<forall>name\<in>set (map fst definitions). name \<noteq> ''printer''
           \<and> name \<notin> set (map (\<lambda>i. ''extruder-'' @ string_of_nat i) [0..<count])"
  shows "distinct (staged_names definitions count)"
proof -
  have "distinct (map (\<lambda>i. ''extruder-'' @ string_of_nat i) [0..<count])"
    by (auto simp: distinct_map intro!: inj_onI dest: string_of_nat_inj)
  then show ?thesis
    using assms by (auto simp: staged_names_def)
qed

lemma staged_paths_distinct:
  "distinct (staged_names definitions count) \<Longrightarrow> distinct (staged_paths definitions count)"
  by (simp add: staged_paths_names distinct_map inj_on_def def_path_inj)

lemma wf_fs_entry:
  assumes "wf_fs f"
  shows "''/'' \<in> set (dirs f)"
    and "q \<in> set (dirs f) \<Longrightarrow> q = ''/'' \<or> dirname q \<in> set (dirs f)"
    and "q \<in> fst ` set (files f) \<Longrightarrow> q \<notin> set (dirs f) \<and> dirname q \<in> set (dirs f)"
  using assms by (auto simp: wf_fs_def list_all_iff)

lemma dirname_root: "dirname ''/'' = ''/''" and dirname_definitions: "dirname ''/definitions'' = ''/''"
  by (simp_all add: dirname_def)

subsection \<open>The loops of staging and unstaging\<close>

lemma for_each_append:
  "for_each (xs @ ys) body = bind_action (for_each xs body) (\<lambda>_. for_each ys body)"
proof
  fix s show "for_each (xs @ ys) body s = bind_action (for_each xs body) (\<lambda>_. for_each ys body) s"
    by (induction xs arbitrary: s) (auto simp: bind_action_def split: prod.splits sum.splits)
qed

lemma for_each_map: "for_each (map f xs) body = for_each xs (\<lambda>x. body (f x))"
proof
  fix s show "for_each (map f xs) body s = for_each xs (\<lambda>x. body (f x)) s"
    by (induction xs arbitrary: s) (auto split: prod.splits sum.splits)
qed

lemma for_each_single: "for_each [x] body = body x"
proof
  fix s show "for_each [x] body s = body x s"
    by (auto split: prod.splits sum.splits)
qed

lemma bind_action_assoc:
  "bind_action (bind_action m k) h = bind_action m (\<lambda>a. bind_action (k a) h)"
proof
  fix s show "bind_action (bind_action m k) h s = bind_action m (\<lambda>a. bind_action (k a) h) s"
    by (auto simp: bind_action_def split: prod.splits sum.splits)
qed

lemma map_fst_indexed:
  "map (\<lambda>(i, extruder). P i) (enumerate 0 xs) = map P [0..<length xs]"
proof -
  have "map (\<lambda>(i, extruder). P i) (enumerate 0 xs) = map P (map fst (enumerate 0 xs))"
    by (induction xs rule: rev_induct) (simp_all add: enumerate_append_eq)
  also have "\<dots> = map P [0..<length xs]"
    by (simp only: map_fst_enumerate add_0)
  finally show ?thesis .
qed

lemma map_fst_named:
  "map fst (map (\<lambda>(name, json). (P name, json)) xs) = map (\<lambda>(name, json). P name) xs"
  by (induction xs) auto

lemma staged_paths_files:
  "map fst (staged_files definitions definition) =
     staged_paths definitions (length (extruders definition))"
  unfolding staged_files_def staged_paths_def map_append map_fst_named map_fst_indexed
  by simp

lemma addDefinitions_staged:
  assumes "engine s = Some e"
  shows "addDefinitions definitions definition s =
     bind_action (FS_call (mkdir ''/definitions'')) (\<lambda>_.
     bind_action (for_each (staged_files definitions definition)
        (\<lambda>(p, data). FS_call (writeFile p data))) (\<lambda>_ s'.
     (Inr (), s'\<lparr>extruderCount := Some (length (extruders definition))\<rparr>))) s"
proof -
  have "bind_action (for_each (staged_files definitions definition)
        (\<lambda>(p, data). FS_call (writeFile p data))) k =
     bind_action (for_each definitions (\<lambda>(name, json).
            FS_call (writeFile (''/definitions/'' @ name @ ''.def.json'') json))) (\<lambda>_.
          bind_action (FS_call (writeFile ''/definitions/printer.def.json''
            (printer definition))) (\<lambda>_.
          bind_action (for_each (enumerate 0 (extruders definition)) (\<lambda>(i, extruder).
            FS_call (writeFile (''/definitions/extruder-'' @ string_of_nat i @ ''.def.json'')
              extruder))) k))" for k :: "unit \<Rightarrow> unit action"
    unfolding staged_files_def for_each_append for_each_map for_each_single bind_action_assoc
      case_prod_unfold fst_conv snd_conv
    by (rule refl)
  then show ?thesis
    using assms by (simp add: addDefinitions_def)
qed

lemma removeDefinitions_staged:
  assumes "engine s = Some e" and "extruderCount s = Some count"
  shows "removeDefinitions definitions s =
     bind_action (for_each (staged_paths definitions count) (\<lambda>p. FS_call (unlink p))) (\<lambda>_.
       FS_call (rmdir ''/definitions'')) s"
proof -
  have "bind_action (for_each (staged_paths definitions count) (\<lambda>p. FS_call (unlink p))) k =
     bind_action (for_each definitions (\<lambda>(name, json).
            FS_call (unlink (''/definitions/'' @ name @ ''.def.json'')))) (\<lambda>_.
          bind_action (FS_call (unlink ''/definitions/printer.def.json'')) (\<lambda>_.
          bind_action (for_each [0..<count] (\<lambda>i.
            FS_call (unlink (''/definitions/extruder-'' @ string_of_nat i @ ''.def.json'')))) k))"
    for k :: "unit \<Rightarrow> unit action"
    unfolding staged_paths_def for_each_append for_each_map for_each_single bind_action_assoc
      case_prod_unfold fst_conv snd_conv
    by (rule refl)
  then show ?thesis
    using assms by (simp add: removeDefinitions_def)
qed

lemma state_engine_same: "engine s = Some e \<Longrightarrow> s\<lparr>engine := Some (e\<lparr>FS := FS e\<rparr>)\<rparr> = s"
  by simp

lemma write_all:
  assumes "engine s = Some e"
    and "\<forall>p\<in>fst ` set ps. resolve p = p \<and> dirname p = d \<and> p \<noteq> d \<and> p \<notin> set (dirs (FS e))"
    and "d \<in> set (dirs (FS e))" and "d \<notin> fst ` set (files (FS e))"
  shows "for_each ps (\<lambda>(p, data). FS_call (writeFile p data)) s =
     (Inr (), s\<lparr>engine := Some (e\<lparr>FS := (FS e)\<lparr>files :=
        foldl (\<lambda>fl (p, data). AList.update p data fl) (files (FS e)) ps\<rparr>\<rparr>)\<rparr>)"
  using assms
proof (induction ps arbitrary: s e)
  case Nil
  then show ?case by simp
next
  case (Cons a ps)
  obtain p data where a: "a = (p, data)" by (cases a)
  define e' where "e' = e\<lparr>FS := (FS e)\<lparr>files := AList.update p data (files (FS e))\<rparr>\<rparr>"
  define s' where "s' = s\<lparr>engine := Some e'\<rparr>"
  have p: "resolve p = p" "dirname p = d" "p \<noteq> d" "p \<notin> set (dirs (FS e))"
    using Cons.prems(2) a by auto
  have w: "FS_call (writeFile p data) s = (Inr (), s')"
    using Cons.prems(1,3,4) p
    by (simp add: FS_call_def writeFile_def is_dir_def is_file_def s'_def e'_def)
  have e': "engine s' = Some e'" by (simp add: s'_def)
  have d': "d \<in> set (dirs (FS e'))" "d \<notin> fst ` set (files (FS e'))"
    using Cons.prems(3,4) p by (auto simp: e'_def dom_update)
  have ps': "\<forall>p\<in>fst ` set ps. resolve p = p \<and> dirname p = d \<and> p \<noteq> d \<and> p \<notin> set (dirs (FS e'))"
    using Cons.prems(2) by (simp add: e'_def)
  have "for_each (a # ps) (\<lambda>(p, data). FS_call (writeFile p data)) s =
      for_each ps (\<lambda>(p, data). FS_call (writeFile p data)) s'"
    using w a by simp
  also have "\<dots> = (Inr (), s'\<lparr>engine := Some (e'\<lparr>FS := (FS e')\<lparr>files :=
        foldl (\<lambda>fl (p, data). AList.update p data fl) (files (FS e')) ps\<rparr>\<rparr>)\<rparr>)"
    by (rule Cons.IH [OF e' ps' d'])
  finally show ?case
    by (simp add: s'_def e'_def a)
qed

lemma filter_delete:
  "filter (\<lambda>kv. fst kv \<notin> set ps) (AList.delete p fl) =
   filter (\<lambda>kv. fst kv \<notin> set (p # ps)) fl"
  by (induction fl) auto

lemma unlink_all:
  assumes "engine s = Some e" and "distinct ps"
    and "\<forall>p\<in>set ps. resolve p = p \<and> p \<notin> set (dirs (FS e)) \<and> p \<in> fst ` set (files (FS e))"
  shows "for_each ps (\<lambda>p. FS_call (unlink p)) s =
     (Inr (), s\<lparr>engine := Some (e\<lparr>FS := (FS e)\<lparr>files :=
        filter (\<lambda>kv. fst kv \<notin> set ps) (files (FS e))\<rparr>\<rparr>)\<rparr>)"
  using assms
proof (induction ps arbitrary: s e)
  case Nil
  then show ?case by simp
next
  case (Cons p ps)
  define e' where "e' = e\<lparr>FS := (FS e)\<lparr>files := AList.delete p (files (FS e))\<rparr>\<rparr>"
  define s' where "s' = s\<lparr>engine := Some e'\<rparr>"
  have p: "resolve p = p" "p \<notin> set (dirs (FS e))" "p \<in> fst ` set (files (FS e))"
    using Cons.prems(3) by auto
  have u: "FS_call (unlink p) s = (Inr (), s')"
    using Cons.prems(1) p
    by (simp add: FS_call_def unlink_def is_dir_def is_file_def s'_def e'_def)
  have e': "engine s' = Some e'" by (simp add: s'_def)
  have ps': "\<forall>q\<in>set ps. resolve q = q \<and> q \<notin> set (dirs (FS e')) \<and> q \<in> fst ` set (files (FS e'))"
  proof
    fix q assume q: "q \<in> set ps"
    then have qp: "q \<noteq> p" using Cons.prems(2) by auto
    obtain v where "(q, v) \<in> set (files (FS e))"
      using Cons.prems(3) q by fastforce
    then have "(q, v) \<in> set (AList.delete p (files (FS e)))"
      using qp by (auto simp: AList.delete_eq)
    then have "q \<in> fst ` set (files (FS e'))"
      by (force simp: e'_def)
    then show "resolve q = q \<and> q \<notin> set (dirs (FS e')) \<and> q \<in> fst ` set (files (FS e'))"
      using Cons.prems(3) q by (simp add: e'_def)
  qed
  have dist: "distinct ps" using Cons.prems(2) by simp
  have "for_each (p # ps) (\<lambda>p. FS_call (unlink p)) s = for_each ps (\<lambda>p. FS_call (unlink p)) s'"
    using u by simp
  also have "\<dots> = (Inr (), s'\<lparr>engine := Some (e'\<lparr>FS := (FS e')\<lparr>files :=
        filter (\<lambda>kv. fst kv \<notin> set ps) (files (FS e'))\<rparr>\<rparr>)\<rparr>)"
    by (rule Cons.IH [OF e' dist ps'])
  finally show ?case
    by (simp add: s'_def e'_def filter_delete del: set_simps)
qed

lemma filter_updates:
  "fst ` set ps \<subseteq> K \<Longrightarrow>
   filter (\<lambda>kv. fst kv \<notin> K) (foldl (\<lambda>fl (p, data). AList.update p data fl) fl ps) =
   filter (\<lambda>kv. fst kv \<notin> K) fl"
proof (induction ps arbitrary: fl)
  case Nil
  then show ?case by simp
next
  case (Cons a ps)
  obtain p data where a: "a = (p, data)" by (cases a)
  have "filter (\<lambda>kv. fst kv \<notin> K) (AList.update p data fl) = filter (\<lambda>kv. fst kv \<notin> K) fl"
    using Cons.prems a by (induction fl) auto
  then show ?case
    using Cons a by simp
qed

lemma keys_updates:
  "fst ` set (foldl (\<lambda>fl (p, data). AList.update p data fl) fl ps) = fst ` set fl \<union> fst ` set ps"
proof (induction ps arbitrary: fl)
  case Nil
  then show ?case by simp
next
  case (Cons a ps)
  obtain p data where a: "a = (p, data)" by (cases a)
  show ?case
    unfolding a foldl_Cons prod.case Cons.IH dom_update by auto
qed

lemma stage_unstage:
  assumes e: "engine s = Some e"
    and wf: "wf_fs (FS e)"
    and fresh: "\<not> is_dir (FS e) ''/definitions''" "\<not> is_file (FS e) ''/definitions''"
    and dist: "distinct (map fst definitions)"
    and names: "\<forall>name\<in>set (map fst definitions). CHR ''/'' \<notin> set name \<and> name \<noteq> ''printer''
           \<and> name \<notin> set (map (\<lambda>i. ''extruder-'' @ string_of_nat i)
                           [0..<length (extruders definition)])"
  shows "addDefinitions definitions definition s =
      (Inr (), s\<lparr>engine := Some (e\<lparr>FS := \<lparr>dirs = dirs (FS e) @ [''/definitions''],
          files = foldl (\<lambda>fl (p, data). AList.update p data fl) (files (FS e))
                    (staged_files definitions definition)\<rparr>\<rparr>),
        extruderCount := Some (length (extruders definition))\<rparr>)"
    and "removeDefinitions definitions (snd (addDefinitions definitions definition s)) =
      (Inr (), s\<lparr>extruderCount := Some (length (extruders definition))\<rparr>)"
    and "set (staged_paths definitions (length (extruders definition)))
           \<inter> fst ` set (files (FS e)) = {}"
proof -
  let ?d = "''/definitions''"
  let ?n = "length (extruders definition)"
  let ?paths = "staged_paths definitions ?n"
  define dirs0 where "dirs0 = dirs (FS e)"
  define files0 where "files0 = files (FS e)"
  define fl2 where "fl2 = foldl (\<lambda>fl (p, data). AList.update p data fl) files0
                    (staged_files definitions definition)"
  define fs1 where "fs1 = (FS e)\<lparr>dirs := dirs0 @ [?d]\<rparr>"
  define e1 where "e1 = e\<lparr>FS := fs1\<rparr>"
  define s1 where "s1 = s\<lparr>engine := Some e1\<rparr>"
  define e2 where "e2 = e1\<lparr>FS := (FS e1)\<lparr>files := fl2\<rparr>\<rparr>"
  define s2 where "s2 = s1\<lparr>engine := Some e2\<rparr>"
  define s3 where "s3 = s2\<lparr>extruderCount := Some ?n\<rparr>"
  have d0: "?d \<notin> set dirs0" "?d \<notin> fst ` set files0"
    using fresh by (simp_all add: is_dir_def is_file_def dirs0_def files0_def)
  note wfe = wf_fs_entry [OF wf, folded dirs0_def files0_def]
  have root_file: "''/'' \<notin> fst ` set files0"
    using wfe(1) wfe(3) [of "''/''"] by auto
  have path: "resolve p = p \<and> dirname p = ?d \<and> p \<noteq> ?d \<and> p \<notin> set dirs0
        \<and> p \<notin> fst ` set files0" if "p \<in> set ?paths" for p
  proof -
    have "p \<in> def_path ` set (staged_names definitions ?n)"
      using that by (simp add: staged_paths_names)
    then obtain base where b: "base \<in> set (staged_names definitions ?n)" and p: "p = def_path base"
      by blast
    have ns: "CHR ''/'' \<notin> set base"
      using names b by (intro staged_names_no_slash [of definitions base ?n]) auto
    note sh = def_path_shape [OF ns, folded p]
    have "p \<notin> set dirs0"
      using wfe(2) [of p] sh d0 by auto
    moreover have "p \<notin> fst ` set files0"
      using wfe(3) [of p] sh d0 by auto
    ultimately show ?thesis using sh by simp
  qed
  have dpaths: "distinct ?paths"
    using dist names by (intro staged_paths_distinct staged_names_distinct) auto
  have mk: "FS_call (mkdir ?d) s = (Inr (), s1)"
    using e wfe(1) root_file d0
    by (simp add: FS_call_def mkdir_def resolve_def dirname_definitions is_dir_def is_file_def
        s1_def e1_def fs1_def dirs0_def files0_def)
  have e1s: "engine s1 = Some e1" by (simp add: s1_def)
  have fs1: "dirs (FS e1) = dirs0 @ [?d]" "files (FS e1) = files0"
    by (simp_all add: e1_def fs1_def files0_def)
  have wr: "for_each (staged_files definitions definition)
        (\<lambda>(p, data). FS_call (writeFile p data)) s1 = (Inr (), s2)"
  proof -
    have "\<forall>p\<in>fst ` set (staged_files definitions definition).
        resolve p = p \<and> dirname p = ?d \<and> p \<noteq> ?d \<and> p \<notin> set (dirs (FS e1))"
      using path staged_paths_files [of definitions "definition"]
      by (auto simp: fs1 simp flip: set_map)
    moreover have "?d \<in> set (dirs (FS e1))" "?d \<notin> fst ` set (files (FS e1))"
      using d0 by (simp_all add: fs1)
    ultimately show ?thesis
      using write_all [OF e1s, of "staged_files definitions definition" ?d]
      by (simp add: s2_def e2_def fl2_def fs1)
  qed
  have add: "addDefinitions definitions definition s = (Inr (), s3)"
    unfolding addDefinitions_staged [OF e]
    by (simp add: bind_action_def mk wr s3_def)
  show "addDefinitions definitions definition s =
      (Inr (), s\<lparr>engine := Some (e\<lparr>FS := \<lparr>dirs = dirs (FS e) @ [''/definitions''],
          files = foldl (\<lambda>fl (p, data). AList.update p data fl) (files (FS e))
                    (staged_files definitions definition)\<rparr>\<rparr>),
        extruderCount := Some (length (extruders definition))\<rparr>)"
    unfolding add
    by (simp add: s3_def s2_def s1_def e2_def e1_def fs1_def fl2_def dirs0_def files0_def)
  have e3: "engine s3 = Some e2" and c3: "extruderCount s3 = Some ?n"
    by (simp_all add: s3_def s2_def)
  have fs2: "dirs (FS e2) = dirs0 @ [?d]" "files (FS e2) = fl2"
    by (simp_all add: e2_def fs1)
  have keys2: "fst ` set fl2 = fst ` set files0 \<union> set ?paths"
    unfolding fl2_def keys_updates
    using staged_paths_files [of definitions "definition"] by (simp flip: set_map)
  define e4 where "e4 = e2\<lparr>FS := (FS e2)\<lparr>files := filter (\<lambda>kv. fst kv \<notin> set ?paths) fl2\<rparr>\<rparr>"
  define s4 where "s4 = s3\<lparr>engine := Some e4\<rparr>"
  have un: "for_each ?paths (\<lambda>p. FS_call (unlink p)) s3 = (Inr (), s4)"
  proof -
    have "\<forall>p\<in>set ?paths. resolve p = p \<and> p \<notin> set (dirs (FS e2)) \<and> p \<in> fst ` set (files (FS e2))"
      using path by (auto simp: fs2 keys2)
    then show ?thesis
      using unlink_all [OF e3 dpaths] by (simp add: s4_def e4_def fs2)
  qed
  have undo: "filter (\<lambda>kv. fst kv \<notin> set ?paths) fl2 = files0"
  proof -
    have "filter (\<lambda>kv. fst kv \<notin> set ?paths) fl2 = filter (\<lambda>kv. fst kv \<notin> set ?paths) files0"
      unfolding fl2_def
      using staged_paths_files [of definitions "definition"]
      by (intro filter_updates) (simp flip: set_map)
    also have "\<dots> = files0"
      using path by (intro filter_True) force
    finally show ?thesis .
  qed
  have fs4: "dirs (FS e4) = dirs0 @ [?d]" "files (FS e4) = files0"
    by (simp_all add: e4_def fs2 undo)
  have e4s: "engine s4 = Some e4" by (simp add: s4_def)
  have empty: "\<not> list_ex (\<lambda>q. q \<noteq> ?d \<and> dirname q = ?d) (dirs (FS e4) @ map fst (files (FS e4)))"
  proof -
    have "dirname q \<noteq> ?d" if "q \<in> set dirs0" for q
      using wfe(2) [OF that] d0 dirname_root by auto
    moreover have "dirname q \<noteq> ?d" if "q \<in> fst ` set files0" for q
      using wfe(3) [OF that] d0 by auto
    ultimately show ?thesis
      by (auto simp: list_ex_iff fs4)
  qed
  have rm: "FS_call (rmdir ?d) s4 = (Inr (), s4\<lparr>engine := Some (e4\<lparr>FS := (FS e4)\<lparr>dirs := dirs0\<rparr>\<rparr>)\<rparr>)"
    using e4s d0 empty
    by (simp add: FS_call_def rmdir_def resolve_def is_dir_def is_file_def fs4)
  have restored: "s4\<lparr>engine := Some (e4\<lparr>FS := (FS e4)\<lparr>dirs := dirs0\<rparr>\<rparr>)\<rparr> = s\<lparr>extruderCount := Some ?n\<rparr>"
    using e
    by (simp add: s4_def s3_def s2_def s1_def e4_def e2_def e1_def fs1_def undo
        dirs0_def files0_def)
  show "removeDefinitions definitions (snd (addDefinitions definitions definition s)) =
      (Inr (), s\<lparr>extruderCount := Some (length (extruders definition))\<rparr>)"
    unfolding add snd_conv removeDefinitions_staged [OF e3 c3]
    by (simp add: bind_action_def un rm restored)
  show "set ?paths \<inter> fst ` set (files (FS e)) = {}"
    using path by (auto simp: files0_def)
qed






subsection \<open>Staging followed by unstaging\<close>

text \<open>C8: take an initialised worker whose filesystem is well formed and has no
  \<open>/definitions\<close> yet, and a table of primary definitions whose names are distinct (they
  are the keys of an object), contain no slash and are neither \<open>printer\<close> nor
  \<open>extruder-i\<close> for a recorded extruder \<open>i\<close>. For every printer definition, with any
  number of extruders, \<open>addDefinitions\<close> succeeds, creates the directory and exactly the
  files \<open>staged_paths\<close> lists (one per primary definition, the printer file, one per
  extruder), none of which existed before; \<open>removeDefinitions\<close> right after it succeeds
  and leaves the state as it was before staging but for the recorded extruder count: the
  files it removed are exactly the ones created, and \<open>/definitions\<close> does not exist.\<close>

theorem stage_then_unstage_restores:
  assumes "engine s = Some e"
    and "wf_fs (FS e)"
    and "\<not> is_dir (FS e) ''/definitions''" and "\<not> is_file (FS e) ''/definitions''"
    and "distinct (map fst definitions)"
    and "\<forall>name\<in>set (map fst definitions). CHR ''/'' \<notin> set name \<and> name \<noteq> ''printer''
           \<and> name \<notin> set (map (\<lambda>i. ''extruder-'' @ string_of_nat i)
                           [0..<length (extruders combined)])"
  shows "fst (addDefinitions definitions combined s) = Inr ()
       \<and> map_option (\<lambda>m. dirs (FS m)) (engine (snd (addDefinitions definitions combined s))) =
           Some (dirs (FS e) @ [''/definitions''])
       \<and> map_option (\<lambda>m. fst ` set (files (FS m)))
             (engine (snd (addDefinitions definitions combined s))) =
           Some (fst ` set (files (FS e))
                 \<union> set (staged_paths definitions (length (extruders combined))))
       \<and> set (staged_paths definitions (length (extruders combined)))
             \<inter> fst ` set (files (FS e)) = {}
       \<and> removeDefinitions definitions (snd (addDefinitions definitions combined s)) =
           (Inr (), s\<lparr>extruderCount := Some (length (extruders combined))\<rparr>)
       \<and> map_option (\<lambda>m. is_dir (FS m) ''/definitions'')
             (engine (snd (removeDefinitions definitions
                (snd (addDefinitions definitions combined s))))) = Some False"
proof -
  note r = stage_unstage [OF assms]
  have keys: "fst ` set (foldl (\<lambda>fl (p, data). AList.update p data fl) (files (FS e))
                    (staged_files definitions combined)) =
      fst ` set (files (FS e)) \<union> set (staged_paths definitions (length (extruders combined)))"
    unfolding keys_updates
    using staged_paths_files [of definitions combined] by (simp flip: set_map)
  have a: "snd (addDefinitions definitions combined s) =
      s\<lparr>engine := Some (e\<lparr>FS := \<lparr>dirs = dirs (FS e) @ [''/definitions''],
          files = foldl (\<lambda>fl (p, data). AList.update p data fl) (files (FS e))
                    (staged_files definitions combined)\<rparr>\<rparr>),
        extruderCount := Some (length (extruders combined))\<rparr>"
    and a1: "fst (addDefinitions definitions combined s) = Inr ()"
    by (simp_all add: r(1))
  have b: "snd (removeDefinitions definitions (snd (addDefinitions definitions combined s))) =
      s\<lparr>extruderCount := Some (length (extruders combined))\<rparr>"
    by (simp add: r(2))
  have "map_option (\<lambda>m. dirs (FS m)) (engine (snd (addDefinitions definitions combined s))) =
           Some (dirs (FS e) @ [''/definitions''])"
    unfolding a by simp
  moreover have "map_option (\<lambda>m. fst ` set (files (FS m)))
             (engine (snd (addDefinitions definitions combined s))) =
           Some (fst ` set (files (FS e))
                 \<union> set (staged_paths definitions (length (extruders combined))))"
    unfolding a by (simp add: keys)
  moreover have "map_option (\<lambda>m. is_dir (FS m) ''/definitions'')
             (engine (snd (removeDefinitions definitions
                (snd (addDefinitions definitions combined s))))) = Some False"
    unfolding b using assms(1,3) by simp
  ultimately show ?thesis
    using a1 r(2) r(3) by blast
qed

theorem stage_then_unstage_restores_witness:
  "wf_fs (FS (example_engine [] True))
   \<and> fst (addDefinitions [(''fdmextruder'', ''{}''), (''fdmprinter'', ''{}'')]
        \<lparr>printer = ''{}'', extruders = [''{}'', ''{}'']\<rparr> (example_state [] True)) = Inr ()
   \<and> map_option (\<lambda>m. fst ` set (files (FS m)))
        (engine (snd (addDefinitions [(''fdmextruder'', ''{}''), (''fdmprinter'', ''{}'')]
          \<lparr>printer = ''{}'', extruders = [''{}'', ''{}'']\<rparr> (example_state [] True)))) =
       Some {''/definitions/fdmextruder.def.json'', ''/definitions/fdmprinter.def.json'',
             ''/definitions/printer.def.json'', ''/definitions/extruder-0.def.json'',
             ''/definitions/extruder-1.def.json''}
   \<and> removeDefinitions [(''fdmextruder'', ''{}''), (''fdmprinter'', ''{}'')]
        (snd (addDefinitions [(''fdmextruder'', ''{}''), (''fdmprinter'', ''{}'')]
          \<lparr>printer = ''{}'', extruders = [''{}'', ''{}'']\<rparr> (example_state [] True))) =
       (Inr (), (example_state [] True)\<lparr>extruderCount := Some 2\<rparr>)"
proof -
  let ?defs = "[(''fdmextruder'', ''{}''), (''fdmprinter'', ''{}'')]"
  let ?c = "\<lparr>printer = ''{}'', extruders = [''{}'', ''{}'']\<rparr>"
  have e: "engine (example_state [] True) = Some (example_engine [] True)"
    by (rule example_engine_state)
  have wf: "wf_fs (FS (example_engine [] True))"
    by (simp add: example_engine_def wf_fs_def)
  have fresh: "\<not> is_dir (FS (example_engine [] True)) ''/definitions''"
    "\<not> is_file (FS (example_engine [] True)) ''/definitions''"
    by (simp_all add: example_engine_def is_dir_def is_file_def)
  have dist: "distinct (map fst ?defs)" by simp
  have two: "[0..<length (extruders ?c)] = [0, 1]"
    by (simp add: upt_rec)
  have "string_of_nat 0 = ''0''" "string_of_nat 1 = ''1''"
    by code_simp+
  then have digits: "string_of_nat 0 = ''0''" "string_of_nat (Suc 0) = ''1''"
    by simp_all
  have names: "\<forall>name\<in>set (map fst ?defs). CHR ''/'' \<notin> set name \<and> name \<noteq> ''printer''
           \<and> name \<notin> set (map (\<lambda>i. ''extruder-'' @ string_of_nat i)
                           [0..<length (extruders ?c)])"
    unfolding two by (simp add: digits)
  have paths: "staged_paths ?defs (length (extruders ?c)) =
      [''/definitions/fdmextruder.def.json'', ''/definitions/fdmprinter.def.json'',
       ''/definitions/printer.def.json'', ''/definitions/extruder-0.def.json'',
       ''/definitions/extruder-1.def.json'']"
    unfolding staged_paths_def two by (simp add: digits)
  show ?thesis
    using wf stage_then_unstage_restores [OF e wf fresh dist names]
    unfolding paths
    by (simp add: example_engine_def)
qed



end
